theory Spec2Isabelle
  imports
    Main
    "HOL-Library.AList"
    "HOL-Library.Sublist"
    "HOL-Library.Char_ord"
    "HOL-Library.List_Lexorder"
begin

section \<open>Python values used by \<open>inventory.py\<close>\<close>

text \<open>
  Exceptions are values. \<open>SystemExit n\<close> is what \<open>sys.exit(n)\<close> raises.
  \<open>ValueError\<close>, \<open>KeyError\<close> and \<open>IndexError\<close> are raised by the operations of
  the program itself; \<open>Uncaught c\<close> is an exception of class \<open>c\<close> that a library
  call raises and no handler of the program catches.
\<close>

datatype error = ValueError | KeyError | IndexError | SystemExit nat | Uncaught string

text \<open>
  A Python \<open>dict\<close> keeps its keys in insertion order: it is an association list
  with distinct keys. \<open>d[k] = v\<close> is \<open>AList.update k v d\<close> (an existing key keeps
  its place, a new key goes to the end), \<open>d[k]\<close> is \<open>map_of d k\<close> with
  \<open>KeyError\<close> for \<open>None\<close>, \<open>d.keys()\<close> is \<open>map fst d\<close>.
\<close>

type_synonym ('k, 'v) dict = "('k \<times> 'v) list"

text \<open>\<open>s.split(sep)\<close> for a one-character separator: every separator cuts, empty
  segments are kept, and the empty string gives one empty segment.\<close>

fun split :: "char \<Rightarrow> string \<Rightarrow> string list" where
  "split sep [] = [[]]"
| "split sep (c # cs) =
     (if c = sep then [] # split sep cs
      else (case split sep cs of
              [] \<Rightarrow> [[c]]
            | w # ws \<Rightarrow> (c # w) # ws))"

text \<open>\<open>sep.join(xs)\<close>.\<close>

fun join :: "string \<Rightarrow> string list \<Rightarrow> string" where
  "join sep [] = []"
| "join sep [x] = x"
| "join sep (x # y # ys) = x @ sep @ join sep (y # ys)"

section \<open>Timestamps\<close>

text \<open>
  A \<open>datetime.datetime\<close> as the database driver returns it for the \<open>upd\<close> column.
\<close>

record datetime =
  year :: nat
  month :: nat
  day :: nat
  hour :: nat
  minute :: nat
  second :: nat

text \<open>The values a MySQL \<open>TIMESTAMP\<close> or \<open>DATETIME\<close> column holds: the years
  1000 to 9999 and the field ranges of \<open>datetime\<close>.\<close>

definition valid_datetime :: "datetime \<Rightarrow> bool" where
  "valid_datetime t \<longleftrightarrow>
     1000 \<le> year t \<and> year t \<le> 9999 \<and> 1 \<le> month t \<and> month t \<le> 12 \<and>
     1 \<le> day t \<and> day t \<le> 31 \<and> hour t < 24 \<and> minute t < 60 \<and> second t < 60"

definition digit_char :: "nat \<Rightarrow> char" where
  "digit_char d = ''0123456789'' ! d"

text \<open>\<open>str(n)\<close> for a natural number: decimal, no padding.\<close>

fun str_nat :: "nat \<Rightarrow> string" where
  "str_nat n = (if n < 10 then [digit_char n] else str_nat (n div 10) @ [digit_char (n mod 10)])"

declare str_nat.simps [simp del]

text \<open>Zero padding on the left up to width \<open>w\<close>.\<close>

definition zpad :: "nat \<Rightarrow> string \<Rightarrow> string" where
  "zpad w s = replicate (w - length s) (CHR ''0'') @ s"

text \<open>
  \<open>t.strftime('%Y-%d-%m %H:%M:%S')\<close>: the directives in the order of the format
  string of \<open>build_hostvars\<close>. \<open>%d\<close>, \<open>%m\<close>, \<open>%H\<close>, \<open>%M\<close> and \<open>%S\<close> are
  zero-padded to two digits; \<open>%Y\<close> is the year in decimal, which the C library
  does not pad.
\<close>

definition strftime_upd :: "datetime \<Rightarrow> string" where
  "strftime_upd t =
     str_nat (year t) @ ''-'' @ zpad 2 (str_nat (day t)) @ ''-'' @
     zpad 2 (str_nat (month t)) @ '' '' @ zpad 2 (str_nat (hour t)) @ '':'' @
     zpad 2 (str_nat (minute t)) @ '':'' @ zpad 2 (str_nat (second t))"

section \<open>IP addresses\<close>

text \<open>
  The standard library module \<open>ipaddress\<close> of Python 3.11, as far as
  \<open>Host.__init__\<close> and \<open>build_hostvars\<close> use it. An address object holds the
  integer \<open>_ip\<close> and, for IPv6, the zone identifier \<open>_scope_id\<close> of a literal
  such as \<open>fe80::1%eth0\<close>.
\<close>

datatype ip_address = IPv4Address nat | IPv6Address nat "string option"

text \<open>The attribute \<open>scope_id\<close>; an IPv4 address has none.\<close>

fun scope_id :: "ip_address \<Rightarrow> string option" where
  "scope_id (IPv4Address ip) = None"
| "scope_id (IPv6Address ip zone) = zone"

definition is_decimal_digit :: "char \<Rightarrow> bool" where
  "is_decimal_digit c \<longleftrightarrow> c \<in> set ''0123456789''"

definition is_hex_digit :: "char \<Rightarrow> bool" where
  "is_hex_digit c \<longleftrightarrow> c \<in> set ''0123456789ABCDEFabcdef''"

definition digit_val :: "char \<Rightarrow> nat" where
  "digit_val c =
     (let k = (of_char c :: nat) in
      if 48 \<le> k \<and> k \<le> 57 then k - 48
      else if 97 \<le> k \<and> k \<le> 102 then k - 87
      else k - 55)"

text \<open>\<open>int(s, base)\<close> on a string of digits of that base.\<close>

definition int_of_digits :: "nat \<Rightarrow> string \<Rightarrow> nat" where
  "int_of_digits base s = foldl (\<lambda>acc c. acc * base + digit_val c) 0 s"

text \<open>\<open>_parse_octet\<close>: \<open>None\<close> stands for its \<open>ValueError\<close>.\<close>

definition parse_octet :: "string \<Rightarrow> nat option" where
  "parse_octet octet_str =
     (if octet_str = [] then None
      else if \<not> list_all is_decimal_digit octet_str then None
      else if length octet_str > 3 then None
      else if octet_str \<noteq> ''0'' \<and> hd octet_str = CHR ''0'' then None
      else (let octet_int = int_of_digits 10 octet_str in
            if octet_int > 255 then None else Some octet_int))"

text \<open>Runs a parser over a list of parts, failing at the first part that fails.\<close>

fun map_option_list :: "('a \<Rightarrow> 'b option) \<Rightarrow> 'a list \<Rightarrow> 'b list option" where
  "map_option_list f [] = Some []"
| "map_option_list f (x # xs) =
     (case f x of
        None \<Rightarrow> None
      | Some y \<Rightarrow> (case map_option_list f xs of None \<Rightarrow> None | Some ys \<Rightarrow> Some (y # ys)))"

text \<open>\<open>IPv4Address._ip_int_from_string\<close>; the bytes are big-endian.\<close>

definition ipv4_int_from_string :: "string \<Rightarrow> nat option" where
  "ipv4_int_from_string ip_str =
     (if ip_str = [] then None
      else (let octets = split (CHR ''.'') ip_str in
            if length octets \<noteq> 4 then None
            else map_option (foldl (\<lambda>acc b. acc * 256 + b) 0)
                   (map_option_list parse_octet octets)))"

text \<open>\<open>IPv4Address(address)\<close> for a string.\<close>

definition IPv4Address_init :: "string \<Rightarrow> ip_address option" where
  "IPv4Address_init addr_str =
     (if CHR ''/'' \<in> set addr_str then None
      else map_option IPv4Address (ipv4_int_from_string addr_str))"

text \<open>\<open>_parse_hextet\<close>; \<open>int('', 16)\<close> raises as well.\<close>

definition parse_hextet :: "string \<Rightarrow> nat option" where
  "parse_hextet hextet_str =
     (if \<not> list_all is_hex_digit hextet_str then None
      else if length hextet_str > 4 then None
      else if hextet_str = [] then None
      else Some (int_of_digits 16 hextet_str))"

definition hex_char :: "nat \<Rightarrow> char" where
  "hex_char d = ''0123456789abcdef'' ! d"

text \<open>\<open>'%x' % n\<close>: lower-case hexadecimal, no padding.\<close>

fun format_x :: "nat \<Rightarrow> string" where
  "format_x n = (if n < 16 then [hex_char n] else format_x (n div 16) @ [hex_char (n mod 16)])"

declare format_x.simps [simp del]

text \<open>The loop \<open>ip_int <<= 16; ip_int |= _parse_hextet(part)\<close> over some parts.\<close>

fun shift_in_hextets :: "nat \<Rightarrow> string list \<Rightarrow> nat option" where
  "shift_in_hextets ip_int [] = Some ip_int"
| "shift_in_hextets ip_int (p # ps) =
     (case parse_hextet p of
        None \<Rightarrow> None
      | Some h \<Rightarrow> shift_in_hextets (ip_int * 65536 + h) ps)"

text \<open>
  \<open>IPv6Address._ip_int_from_string\<close>, from the check of the number of parts on.
  \<open>skips\<close> are the inner indices of empty parts, of which the source permits one
  (the \<open>::\<close>); \<open>parts_hi\<close> and \<open>parts_lo\<close> count the parts before and after it.
  \<open>ip_int << 16 | h\<close> is \<open>ip_int * 65536 + h\<close> as \<open>h < 65536\<close>, and
  \<open>ip_int <<= 16 * parts_skipped\<close> multiplies by \<open>65536 ^ parts_skipped\<close>.
\<close>

definition ipv6_int_from_parts :: "string list \<Rightarrow> nat option" where
  "ipv6_int_from_parts parts =
     (if length parts > 9 then None
      else (let skips = filter (\<lambda>i. parts ! i = []) [1 ..< length parts - 1] in
        if length skips > 1 then None
        else (case skips of
            skip_index # _ \<Rightarrow>
              (let hi0 = skip_index;
                   lo0 = length parts - skip_index - 1;
                   parts_hi = (if hd parts = [] then hi0 - 1 else hi0);
                   parts_lo = (if last parts = [] then lo0 - 1 else lo0)
               in if hd parts = [] \<and> parts_hi \<noteq> 0 then None
                  else if last parts = [] \<and> parts_lo \<noteq> 0 then None
                  else if parts_hi + parts_lo > 7 then None
                  else (case shift_in_hextets 0 (take parts_hi parts) of
                          None \<Rightarrow> None
                        | Some hi \<Rightarrow>
                            shift_in_hextets
                              (hi * 65536 ^ (8 - (parts_hi + parts_lo)))
                              (drop (length parts - parts_lo) parts)))
          | [] \<Rightarrow>
              if length parts \<noteq> 8 then None
              else if hd parts = [] then None
              else if last parts = [] then None
              else shift_in_hextets 0 parts)))"

text \<open>
  \<open>IPv6Address._ip_int_from_string\<close>: the string is split at the colons, and an
  IPv4-style last part is replaced by its two hextets.
\<close>

definition ipv6_int_from_string :: "string \<Rightarrow> nat option" where
  "ipv6_int_from_string ip_str =
     (if ip_str = [] then None
      else (let parts = split (CHR '':'') ip_str in
        if length parts < 3 then None
        else if CHR ''.'' \<in> set (last parts)
        then (case IPv4Address_init (last parts) of
                Some (IPv4Address ipv4_int) \<Rightarrow>
                  ipv6_int_from_parts
                    (butlast parts @
                     [format_x (ipv4_int div 65536 mod 65536), format_x (ipv4_int mod 65536)])
              | _ \<Rightarrow> None)
        else ipv6_int_from_parts parts))"

text \<open>\<open>_split_scope_id\<close>: \<open>ip_str.partition('%')\<close>; a zone identifier may be
  neither empty nor contain another \<open>%\<close>.\<close>

definition split_scope_id :: "string \<Rightarrow> (string \<times> string option) option" where
  "split_scope_id ip_str =
     (let addr = takeWhile (\<lambda>c. c \<noteq> CHR ''%'') ip_str;
          rest = dropWhile (\<lambda>c. c \<noteq> CHR ''%'') ip_str
      in case rest of
           [] \<Rightarrow> Some (addr, None)
         | _ # zone \<Rightarrow>
             if zone = [] \<or> CHR ''%'' \<in> set zone then None
             else Some (addr, Some zone))"

text \<open>\<open>IPv6Address(address)\<close> for a string.\<close>

definition IPv6Address_init :: "string \<Rightarrow> ip_address option" where
  "IPv6Address_init addr_str =
     (if CHR ''/'' \<in> set addr_str then None
      else (case split_scope_id addr_str of
              None \<Rightarrow> None
            | Some (addr, zone) \<Rightarrow>
                map_option (\<lambda>ip. IPv6Address ip zone) (ipv6_int_from_string addr)))"

text \<open>\<open>ipaddress.ip_address(address)\<close>: IPv4 first, then IPv6, else
  \<open>ValueError\<close>.\<close>

definition ip_address :: "string \<Rightarrow> error + ip_address" where
  "ip_address address =
     (case IPv4Address_init address of
        Some a \<Rightarrow> Inr a
      | None \<Rightarrow> (case IPv6Address_init address of
                   Some a \<Rightarrow> Inr a
                 | None \<Rightarrow> Inl ValueError))"

text \<open>\<open>ip_int.to_bytes(4, 'big')\<close>.\<close>

definition to_bytes4 :: "nat \<Rightarrow> nat list" where
  "to_bytes4 n = [n div 16777216 mod 256, n div 65536 mod 256, n div 256 mod 256, n mod 256]"

text \<open>
  The property \<open>exploded\<close>. For IPv4 it is \<open>str(self)\<close>, the dotted decimal of
  \<open>_string_from_ip_int\<close>. For IPv6, \<open>_explode_shorthand_ip_string\<close> parses
  \<open>str(self)\<close> again with \<open>_ip_int_from_string\<close>, formats the integer as
  \<open>'%032x'\<close> and joins its eight four-character slices with colons. For an address
  without zone identifier the second parse returns \<open>_ip\<close>. With a zone identifier
  \<open>str(self)\<close> ends in \<open>%zone\<close>, the part that holds the \<open>%\<close> is not a hextet,
  and the property raises \<open>AddressValueError\<close>, a \<open>ValueError\<close>.
\<close>

definition exploded :: "ip_address \<Rightarrow> error + string" where
  "exploded a =
     (case a of
        IPv4Address ip \<Rightarrow> Inr (join ''.'' (map str_nat (to_bytes4 ip)))
      | IPv6Address ip None \<Rightarrow>
          (let hex_str = zpad 32 (format_x ip)
           in Inr (join '':'' (map (\<lambda>x. take 4 (drop x hex_str)) [0, 4, 8, 12, 16, 20, 24, 28])))
      | IPv6Address ip (Some zone) \<Rightarrow> Inl ValueError)"

section \<open>The Host Normalizer\<close>

text \<open>
  One row of \<open>server_inventory\<close> as \<open>read_query\<close> returns it (a dictionary from
  column name to value). The nullable columns are options; \<open>enabled\<close> is a
  MySQL integer.
\<close>

record row =
  col_id :: int
  col_fqdn :: string
  col_enabled :: "int option"
  col_features :: "string option"
  col_ipaddr :: string
  col_label :: "string option"
  col_groups :: "string option"
  col_upd :: datetime

text \<open>The attributes of a \<open>Host\<close> object.\<close>

record host =
  host_id :: int
  fqdn :: string
  upd :: datetime
  enabled :: bool
  ipaddr :: ip_address
  groups :: "string list"
  features :: "string list"
  label :: string

text \<open>\<open>x.split(',') if x else []\<close>: \<open>None\<close> and the empty string are false.\<close>

definition split_csv :: "string option \<Rightarrow> string list" where
  "split_csv x = (case x of None \<Rightarrow> [] | Some s \<Rightarrow> if s = [] then [] else split (CHR '','') s)"

text \<open>\<open>Host.__init__\<close>; the only statement that can raise is the call of
  \<open>ipaddress.ip_address\<close>.\<close>

definition Host_init :: "row \<Rightarrow> error + host" where
  "Host_init r =
     (case ip_address (col_ipaddr r) of
        Inl e \<Rightarrow> Inl e
      | Inr a \<Rightarrow>
          Inr \<lparr> host_id = col_id r,
                fqdn = col_fqdn r,
                upd = col_upd r,
                enabled = (case col_enabled r of None \<Rightarrow> False | Some n \<Rightarrow> n \<noteq> 0),
                ipaddr = a,
                groups = split_csv (col_groups r),
                features = split_csv (col_features r),
                label = (case col_label r of None \<Rightarrow> [] | Some l \<Rightarrow> l) \<rparr>)"

text \<open>\<open>process_hosts\<close>: the loop appends one \<open>Host\<close> per row and stops at the
  first row whose constructor raises.\<close>

fun process_hosts_loop :: "host list \<Rightarrow> row list \<Rightarrow> error + host list" where
  "process_hosts_loop hosts [] = Inr hosts"
| "process_hosts_loop hosts (r # rs) =
     (case Host_init r of
        Inl e \<Rightarrow> Inl e
      | Inr h \<Rightarrow> process_hosts_loop (hosts @ [h]) rs)"

definition process_hosts :: "row list \<Rightarrow> error + host list" where
  "process_hosts host_list = process_hosts_loop [] host_list"

section \<open>The Inventory Builder\<close>

text \<open>The value stored under a host's name in the hostvars: the \<open>__dict__\<close> of the
  host without \<open>fqdn\<close>, with \<open>upd\<close> and \<open>ipaddr\<close> replaced by strings.\<close>

record hostvar =
  hv_id :: int
  hv_upd :: string
  hv_enabled :: bool
  hv_ipaddr :: string
  hv_groups :: "string list"
  hv_features :: "string list"
  hv_label :: string

definition host_dict :: "host \<Rightarrow> error + hostvar" where
  "host_dict h =
     (case exploded (ipaddr h) of
        Inl e \<Rightarrow> Inl e
      | Inr ip_str \<Rightarrow>
          Inr \<lparr> hv_id = host_id h,
                hv_upd = strftime_upd (upd h),
                hv_enabled = enabled h,
                hv_ipaddr = ip_str,
                hv_groups = groups h,
                hv_features = features h,
                hv_label = label h \<rparr>)"

fun build_hostvars_loop :: "(string, hostvar) dict \<Rightarrow> host list \<Rightarrow> error + (string, hostvar) dict" where
  "build_hostvars_loop hostvars [] = Inr hostvars"
| "build_hostvars_loop hostvars (h # hs) =
     (case host_dict h of
        Inl e \<Rightarrow> Inl e
      | Inr d \<Rightarrow> build_hostvars_loop (AList.update (fqdn h) d hostvars) hs)"

definition build_hostvars :: "host list \<Rightarrow> error + (string, hostvar) dict" where
  "build_hostvars hosts = build_hostvars_loop [] hosts"

text \<open>A group's value \<open>{'hosts': [...]}\<close>.\<close>

record group_entry =
  group_hosts :: "string list"

text \<open>The body of the inner loop of \<open>build_groups\<close>: create the group if it is
  new, then append the name to its list in place.\<close>

definition add_to_group :: "string \<Rightarrow> (string, group_entry) dict \<Rightarrow> string \<Rightarrow> (string, group_entry) dict" where
  "add_to_group name group_map g =
     (let group_map1 = (if g \<notin> set (map fst group_map)
                        then AList.update g \<lparr>group_hosts = []\<rparr> group_map
                        else group_map)
      in AList.map_entry g (\<lambda>e. e\<lparr>group_hosts := group_hosts e @ [name]\<rparr>) group_map1)"

fun build_groups_loop :: "(string, group_entry) dict \<Rightarrow> host list \<Rightarrow> (string, group_entry) dict" where
  "build_groups_loop group_map [] = group_map"
| "build_groups_loop group_map (h # hs) =
     build_groups_loop (foldl (add_to_group (fqdn h)) group_map (groups h)) hs"

definition build_groups :: "host list \<Rightarrow> (string, group_entry) dict" where
  "build_groups hosts = build_groups_loop [] hosts"

text \<open>The values of the inventory document: a group, or the \<open>{'hostvars': ...}\<close>
  dictionary under \<open>_meta\<close>.\<close>

datatype entry = Group_entry group_entry | Meta_entry "(string, hostvar) dict"

text \<open>
  \<open>build_ansible_inventory\<close> on a store of dictionary objects. An address is an
  index into the store. \<open>groups.copy()\<close> allocates a new dictionary with the
  entries of the one at \<open>groups_ref\<close>; the assignment to \<open>inventory['_meta']\<close>
  updates the new object; the result is its address.
\<close>

type_synonym store = "(string, entry) dict list"

definition build_ansible_inventory :: "store \<Rightarrow> nat \<Rightarrow> (string, hostvar) dict \<Rightarrow> nat \<times> store" where
  "build_ansible_inventory st groups_ref hostvars =
     (let inventory = length st;
          st1 = st @ [st ! groups_ref];
          st2 = st1[inventory := AList.update ''_meta'' (Meta_entry hostvars) (st1 ! inventory)]
      in (inventory, st2))"

text \<open>The group mapping as a stored dictionary object.\<close>

definition as_entries :: "(string, group_entry) dict \<Rightarrow> (string, entry) dict" where
  "as_entries group_map = map (\<lambda>(k, g). (k, Group_entry g)) group_map"

section \<open>Output\<close>

text \<open>
  What \<open>dump\<close> is given: a dictionary (the hostvars or the inventory document), a
  list, or the key view of a dictionary. \<open>Json d\<close> stands for the line
  \<open>print(json.dumps(d))\<close> writes, \<open>Lines xs\<close> for the lines
  \<open>print(*xs, sep='\n')\<close> writes, \<open>Text s\<close> for a line of text.
\<close>

datatype data =
    Hostvars_dict "(string, hostvar) dict"
  | Inventory_dict "(string, entry) dict"
  | Str_list "string list"
  | Dict_keys "string list"

datatype printed = Json data | Lines "string list" | Text string

fun dump :: "data \<Rightarrow> printed list" where
  "dump (Hostvars_dict d) = [Json (Hostvars_dict d)]"
| "dump (Inventory_dict d) = [Json (Inventory_dict d)]"
| "dump (Str_list xs) = [Lines (sort xs)]"
| "dump (Dict_keys xs) = [Lines (sort xs)]"

text \<open>The exit status of the process: \<open>0\<close> when \<open>main\<close> returns, the argument of
  \<open>sys.exit\<close>, and \<open>1\<close> for an uncaught exception.\<close>

fun exit_status :: "error option \<Rightarrow> nat" where
  "exit_status None = 0"
| "exit_status (Some (SystemExit n)) = n"
| "exit_status (Some _) = 1"

section \<open>The Selector\<close>

text \<open>
  The parsed command line, as far as the read path of \<open>main\<close> reads it.
  \<open>arg_name\<close> is \<open>args.name[0]\<close> for \<open>get host\<close> and \<open>args.name\<close> for
  \<open>get group\<close>; \<open>arg_list\<close> is \<open>args.list\<close>.
\<close>

record args =
  subparser :: "string option"
  get_subparser :: "string option"
  arg_name :: string
  arg_list :: bool

text \<open>The truth value of an optional string: \<open>None\<close> and the empty string are
  false.\<close>

definition truthy :: "string option \<Rightarrow> bool" where
  "truthy x = (case x of None \<Rightarrow> False | Some s \<Rightarrow> s \<noteq> [])"

text \<open>The loop \<open>hostvar_subset[host] = hostvars[host]\<close>; a missing key raises
  \<open>KeyError\<close>.\<close>

fun hostvar_subset_loop ::
  "(string, hostvar) dict \<Rightarrow> (string, hostvar) dict \<Rightarrow> string list \<Rightarrow> error + (string, hostvar) dict" where
  "hostvar_subset_loop hostvars hostvar_subset [] = Inr hostvar_subset"
| "hostvar_subset_loop hostvars hostvar_subset (h # hs) =
     (case map_of hostvars h of
        None \<Rightarrow> Inl KeyError
      | Some v \<Rightarrow> hostvar_subset_loop hostvars (AList.update h v hostvar_subset) hs)"

text \<open>
  The read path of \<open>main\<close> (\<open>not args.subparser or args.subparser == 'get'\<close>) on
  the rows that \<open>get_hosts\<close> returned: what is printed, and the exception the
  process ends with, if any.
\<close>

definition main_get :: "args \<Rightarrow> row list \<Rightarrow> printed list \<times> error option" where
  "main_get a table =
     (case process_hosts table of
        Inl e \<Rightarrow> ([], Some e)
      | Inr hosts \<Rightarrow>
          (let group_map = build_groups hosts in
           case build_hostvars hosts of
             Inl e \<Rightarrow> ([], Some e)
           | Inr hostvars \<Rightarrow>
               if truthy (subparser a) then
                 if get_subparser a = Some ''host'' then
                   if arg_name a \<noteq> ''all'' then
                     (let host_subset = map fqdn (filter (\<lambda>h. prefix (arg_name a) (fqdn h)) hosts) in
                      case hostvar_subset_loop hostvars [] host_subset of
                        Inl e \<Rightarrow> ([], Some e)
                      | Inr hostvar_subset \<Rightarrow> (dump (Hostvars_dict hostvar_subset), None))
                   else (dump (Hostvars_dict hostvars), None)
                 else if get_subparser a = Some ''group'' then
                   if arg_list a then (dump (Dict_keys (map fst group_map)), None)
                   else (case map_of group_map (arg_name a) of
                           None \<Rightarrow> ([Text (''No group matching '' @ arg_name a)], Some (SystemExit 1))
                         | Some g \<Rightarrow> (dump (Str_list (group_hosts g)), None))
                 else ([], None)
               else if arg_list a then
                 (let (inventory, st) = build_ansible_inventory [as_entries group_map] 0 hostvars
                  in (dump (Inventory_dict (st ! inventory)), None))
               else ([], None)))"

section \<open>The Host Writer\<close>

text \<open>The connection: the statements executed and committed through it, and whether it
  is still open.\<close>

record db =
  committed :: "string list"
  is_open :: bool

text \<open>A value of the \<open>values\<close> list of \<open>add_host\<close>: a string, or the integer of
  the \<open>enabled\<close> column.\<close>

datatype sql_value = Str_value string | Int_value nat

definition quote_field :: "string \<Rightarrow> string" where
  "quote_field x = [CHR 0x60] @ x @ [CHR 0x60]"

fun quote_value :: "sql_value \<Rightarrow> string" where
  "quote_value (Str_value x) = [CHR 0x27] @ x @ [CHR 0x27]"
| "quote_value (Int_value n) = str_nat n"

text \<open>
  \<open>write_query\<close>. \<open>execute\<close> is the store, for \<open>cur.execute(query)\<close> followed by
  \<open>db.commit()\<close>: \<open>None\<close> when the statement is accepted, else the arguments
  \<open>err.args\<close> of the exception, each as \<open>print\<close> shows it. The handler prints
  \<open>err.args[1]\<close>: for an exception with fewer than two arguments that index raises
  \<open>IndexError\<close> inside the handler, before anything is printed or closed.
\<close>

definition write_query :: "(string \<Rightarrow> string list option) \<Rightarrow> db \<Rightarrow> string \<Rightarrow> printed list \<times> error option \<times> db" where
  "write_query execute d query =
     (case execute query of
        None \<Rightarrow> ([], None, d\<lparr>committed := committed d @ [query]\<rparr>)
      | Some err_args \<Rightarrow>
          if length err_args < 2 then ([], Some IndexError, d)
          else ([Text (''ERROR: '' @ err_args ! 1)], Some (SystemExit 1), d\<lparr>is_open := False\<rparr>))"

text \<open>
  What \<open>socket.gethostbyname(name)\<close> does: it returns the address, or raises
  \<open>socket.gaierror\<close>, whose arguments are the pair of an error number and a message,
  or raises an exception of another class (\<open>UnicodeError\<close> for a name with an empty or
  overlong label, such as \<open>a..b\<close>).
\<close>

datatype lookup = Resolved string | Gaierror int string | Lookup_raised string


text \<open>An optional column of the insert statement: \<open>if x: fields.append(f);
  values.append(x)\<close>.\<close>

definition optional_column :: "string \<Rightarrow> string option \<Rightarrow> (string \<times> sql_value) list" where
  "optional_column f x = (case x of None \<Rightarrow> [] | Some s \<Rightarrow> if s = [] then [] else [(f, Str_value s)])"

text \<open>
  \<open>add_host\<close> on the connection \<open>d\<close> that \<open>connect_db\<close> returned.
  \<open>gethostbyname\<close> is the resolver. The handler around the lookup catches
  \<open>socket.gaierror\<close> only: it prints the message \<open>err.args[1]\<close>, closes the
  connection and exits; an exception of another class leaves \<open>add_host\<close> at once,
  with nothing printed and the connection open. \<open>columns\<close> holds the lists \<open>fields\<close>
  and \<open>values\<close>, which the source extends together, as pairs.
\<close>

definition add_host ::
  "(string \<Rightarrow> lookup) \<Rightarrow> (string \<Rightarrow> string list option) \<Rightarrow> db \<Rightarrow>
   string \<Rightarrow> string option \<Rightarrow> string option \<Rightarrow> string option \<Rightarrow> string option \<Rightarrow> bool \<Rightarrow>
   printed list \<times> error option \<times> db" where
  "add_host gethostbyname execute d name ip grps feats lbl disabled =
     (case (case ip of
              None \<Rightarrow> gethostbyname name
            | Some s \<Rightarrow> if s = [] then gethostbyname name else Resolved s) of
        Gaierror errno msg \<Rightarrow>
          ([Text (''ERROR: '' @ msg)], Some (SystemExit 1), d\<lparr>is_open := False\<rparr>)
      | Lookup_raised c \<Rightarrow> ([], Some (Uncaught c), d)
      | Resolved address \<Rightarrow>
          (let columns = [(''fqdn'', Str_value name), (''ipaddr'', Str_value address)]
                 @ optional_column ''groups'' grps
                 @ optional_column ''features'' feats
                 @ optional_column ''label'' lbl
                 @ (if disabled then [(''enabled'', Int_value 0)] else []);
               fields = join '','' (map (\<lambda>c. quote_field (fst c)) columns);
               vals = join '','' (map (\<lambda>c. quote_value (snd c)) columns);
               query = ''INSERT INTO '' @ quote_field ''server_inventory'' @ '' ('' @ fields
                         @ '') VALUES ('' @ vals @ '');'';
               (out, exc, d1) = write_query execute d query
           in case exc of
                Some e \<Rightarrow> (out, Some e, d1)
              | None \<Rightarrow> (out, None, d1\<lparr>is_open := False\<rparr>)))"

section \<open>Notions of the specification\<close>

text \<open>The elements of a list in the order of their first appearance.\<close>

definition first_appearance :: "'a list \<Rightarrow> 'a list" where
  "first_appearance xs = rev (remdups (rev xs))"

text \<open>The pairs (group, host name) in the order in which the two nested loops of
  \<open>build_groups\<close> meet them: host by host, and group by group within a host.\<close>

definition memberships :: "host list \<Rightarrow> (string \<times> string) list" where
  "memberships hosts = concat (map (\<lambda>h. map (\<lambda>g. (g, fqdn h)) (groups h)) hosts)"

text \<open>The names of the hosts of group \<open>g\<close>, in the order the hosts were supplied.\<close>

definition members_in_order :: "host list \<Rightarrow> string \<Rightarrow> string list" where
  "members_in_order hosts g = map snd (filter (\<lambda>p. fst p = g) (memberships hosts))"

text \<open>One assignment \<open>d[k] = v\<close>, as a step of a loop over pairs.\<close>

definition put :: "('k, 'v) dict \<Rightarrow> 'k \<times> 'v \<Rightarrow> ('k, 'v) dict" where
  "put d p = AList.update (fst p) (snd p) d"

text \<open>The hexadecimal digits of \<open>n\<close> at a fixed width \<open>w\<close>, most significant
  first.\<close>

fun hexw :: "nat \<Rightarrow> nat \<Rightarrow> string" where
  "hexw 0 n = []"
| "hexw (Suc w) n = hexw w (n div 16) @ [hex_char (n mod 16)]"

text \<open>The eight 16-bit groups of a 128-bit address, most significant first.\<close>

definition hextets :: "nat \<Rightarrow> nat list" where
  "hextets n = map (\<lambda>k. n div 65536 ^ k mod 65536) [7, 6, 5, 4, 3, 2, 1, 0]"

text \<open>
  The fully expanded text of an address: for IPv6 all eight groups, each zero-padded to
  four hexadecimal digits, joined by colons, with no \<open>::\<close> abbreviation; for IPv4
  the four octets in decimal joined by dots, which has no shorter form.
\<close>

definition expanded_form :: "ip_address \<Rightarrow> string" where
  "expanded_form a =
     (case a of
        IPv4Address ip \<Rightarrow> join ''.'' (map str_nat (to_bytes4 ip))
      | IPv6Address ip zone \<Rightarrow> join '':'' (map (\<lambda>g. zpad 4 (format_x g)) (hextets ip)))"

text \<open>The \<open>n\<close> characters of \<open>s\<close> from position \<open>i\<close> on.\<close>

definition field :: "nat \<Rightarrow> nat \<Rightarrow> string \<Rightarrow> string" where
  "field i n s = take n (drop i s)"

text \<open>
  The layout \<open>YYYY-DD-MM HH:MM:SS\<close> of a timestamp \<open>t\<close>: nineteen characters, the
  separators in their places, and the digit fields, read as decimal numbers, are the
  year, then the day, then the month, then hour, minute and second of \<open>t\<close>.
\<close>

definition year_day_month_format :: "datetime \<Rightarrow> string \<Rightarrow> bool" where
  "year_day_month_format t s \<longleftrightarrow>
     length s = 19 \<and>
     s ! 4 = CHR ''-'' \<and> s ! 7 = CHR ''-'' \<and> s ! 10 = CHR '' '' \<and>
     s ! 13 = CHR '':'' \<and> s ! 16 = CHR '':'' \<and>
     list_all is_decimal_digit
       (field 0 4 s @ field 5 2 s @ field 8 2 s @ field 11 2 s @ field 14 2 s @ field 17 2 s) \<and>
     int_of_digits 10 (field 0 4 s) = year t \<and>
     int_of_digits 10 (field 5 2 s) = day t \<and>
     int_of_digits 10 (field 8 2 s) = month t \<and>
     int_of_digits 10 (field 11 2 s) = hour t \<and>
     int_of_digits 10 (field 14 2 s) = minute t \<and>
     int_of_digits 10 (field 17 2 s) = second t"

section \<open>Example data\<close>

text \<open>The hosts of the specification's example: \<open>web1\<close>, \<open>web2\<close> and \<open>db1\<close>, the last
  one with an empty \<open>groups\<close> column and an IPv6 address.\<close>

definition example_upd :: datetime where
  "example_upd = \<lparr>year = 2020, month = 3, day = 14, hour = 1, minute = 59, second = 26\<rparr>"

definition example_row :: "string \<Rightarrow> string \<Rightarrow> string option \<Rightarrow> row" where
  "example_row name ip grps =
     \<lparr>col_id = 1, col_fqdn = name, col_enabled = Some 1, col_features = None, col_ipaddr = ip,
      col_label = None, col_groups = grps, col_upd = example_upd\<rparr>"

definition example_rows :: "row list" where
  "example_rows =
     [example_row ''web1.example.com'' ''10.0.0.1'' (Some ''web,prod''),
      example_row ''web2.example.com'' ''10.0.0.2'' (Some ''prod,web''),
      example_row ''db1.example.com'' ''::1'' (Some '''')]"

definition example_host :: "string \<Rightarrow> ip_address \<Rightarrow> string list \<Rightarrow> host" where
  "example_host name a gs =
     \<lparr>host_id = 1, fqdn = name, upd = example_upd, enabled = True, ipaddr = a, groups = gs,
      features = [], label = []\<rparr>"

definition example_hosts :: "host list" where
  "example_hosts =
     [example_host ''web1.example.com'' (IPv4Address 167772161) [''web'', ''prod''],
      example_host ''web2.example.com'' (IPv4Address 167772162) [''prod'', ''web''],
      example_host ''db1.example.com'' (IPv6Address 1 None) []]"

definition example_hostvar :: "string \<Rightarrow> string list \<Rightarrow> hostvar" where
  "example_hostvar ip gs =
     \<lparr>hv_id = 1, hv_upd = ''2020-14-03 01:59:26'', hv_enabled = True, hv_ipaddr = ip,
      hv_groups = gs, hv_features = [], hv_label = []\<rparr>"

definition example_hostvars :: "(string, hostvar) dict" where
  "example_hostvars =
     [(''web1.example.com'', example_hostvar ''10.0.0.1'' [''web'', ''prod'']),
      (''web2.example.com'', example_hostvar ''10.0.0.2'' [''prod'', ''web'']),
      (''db1.example.com'', example_hostvar ''0000:0000:0000:0000:0000:0000:0000:0001'' [])]"

definition example_args :: "string option \<Rightarrow> string \<Rightarrow> bool \<Rightarrow> args" where
  "example_args sub name lst =
     \<lparr>subparser = Some ''get'', get_subparser = sub, arg_name = name, arg_list = lst\<rparr>"

section \<open>Splitting and joining\<close>

lemma split_nonempty: "split sep s \<noteq> []"
  by (induction s) (auto split: list.splits)

lemma split_join: "join [sep] (split sep s) = s"
proof (induction s)
  case Nil
  show ?case by simp
next
  case (Cons c cs)
  then show ?case
    by (cases "split sep cs"; cases "tl (split sep cs)") (auto split: list.splits)
qed

lemma length_split: "length (split sep s) = Suc (count_list s sep)"
  by (induction s) (auto split: list.splits simp: split_nonempty)

lemma split_append_sep: "split sep (xs @ sep # ys) = split sep xs @ split sep ys"
proof (induction xs)
  case Nil
  show ?case by simp
next
  case (Cons x xs)
  then show ?case
    by (cases "split sep xs") (auto simp: split_nonempty)
qed

lemma split_trailing_sep: "[] \<in> set (split sep (u @ [sep]))"
  by (simp add: split_append_sep)

lemma split_doubled_sep: "[] \<in> set (split sep (u @ sep # sep # v))"
  by (simp add: split_append_sep)

section \<open>The group mapping\<close>

lemma map_of_map_entry:
  "map_of (AList.map_entry k f al) = (map_of al)(k := map_option f (map_of al k))"
  by (induction al) (auto simp: fun_eq_iff)

lemma keys_map_entry: "map fst (AList.map_entry k f al) = map fst al"
  by (induction al) auto

lemma add_to_group_keys:
  "map fst (add_to_group n m g) = (if g \<in> set (map fst m) then map fst m else map fst m @ [g])"
  by (simp add: add_to_group_def keys_map_entry update_keys Let_def)

lemma add_to_group_map_of:
  "map_of (add_to_group n m g) =
     (map_of m)(g \<mapsto> \<lparr>group_hosts = (case map_of m g of None \<Rightarrow> [] | Some e \<Rightarrow> group_hosts e) @ [n]\<rparr>)"
  by (auto simp: add_to_group_def map_of_map_entry update_conv' Let_def fun_eq_iff
      map_of_eq_None_iff[symmetric] split: option.splits)

lemma build_groups_loop_foldl:
  "build_groups_loop m hosts = foldl (\<lambda>m (g, n). add_to_group n m g) m (memberships hosts)"
proof (induction hosts arbitrary: m)
  case Nil
  show ?case by (simp add: memberships_def)
next
  case (Cons h hs)
  have inner: "foldl (add_to_group (fqdn h)) m gs =
      foldl (\<lambda>m (g, n). add_to_group n m g) m (map (\<lambda>g. (g, fqdn h)) gs)" for gs m
    by (induction gs arbitrary: m) simp_all
  show ?case
    using Cons.IH by (simp add: memberships_def inner)
qed

lemma first_appearance_snoc:
  "first_appearance (xs @ [x]) = (if x \<in> set xs then first_appearance xs else first_appearance xs @ [x])"
  by (simp add: first_appearance_def)

lemma set_first_appearance: "set (first_appearance xs) = set xs"
  by (simp add: first_appearance_def)

lemma distinct_first_appearance: "distinct (first_appearance xs)"
  by (simp add: first_appearance_def)

lemma foldl_groups_keys:
  "map fst (foldl (\<lambda>m (g, n). add_to_group n m g) [] ps) = first_appearance (map fst ps)"
proof (induction ps rule: rev_induct)
  case Nil
  show ?case by (simp add: first_appearance_def)
next
  case (snoc p ps)
  obtain g n where p: "p = (g, n)" by (cases p)
  have "set (map fst (foldl (\<lambda>m (g, n). add_to_group n m g) [] ps)) = set (map fst ps)"
    using snoc.IH by (simp add: set_first_appearance del: set_map)
  then show ?case
    using snoc.IH by (simp add: p add_to_group_keys first_appearance_snoc del: set_map)
qed

lemma foldl_groups_map_of:
  "map_of (foldl (\<lambda>m (g, n). add_to_group n m g) [] ps) g =
     (if g \<in> set (map fst ps) then Some \<lparr>group_hosts = map snd (filter (\<lambda>p. fst p = g) ps)\<rparr> else None)"
proof (induction ps rule: rev_induct)
  case Nil
  show ?case by simp
next
  case (snoc p ps)
  obtain g' n where p: "p = (g', n)" by (cases p)
  show ?case
    using snoc.IH by (auto simp: p add_to_group_map_of filter_empty_conv image_iff)
qed

lemma map_fst_memberships: "map fst (memberships hosts) = concat (map groups hosts)"
  by (induction hosts) (simp_all add: memberships_def comp_def)

lemma build_groups_keys:
  "map fst (build_groups hosts) = first_appearance (concat (map groups hosts))"
  by (simp add: build_groups_def build_groups_loop_foldl foldl_groups_keys map_fst_memberships)

lemma build_groups_map_of:
  "map_of (build_groups hosts) g =
     (if g \<in> set (concat (map groups hosts))
      then Some \<lparr>group_hosts = members_in_order hosts g\<rparr> else None)"
  using foldl_groups_map_of [of "memberships hosts" g]
  by (simp add: build_groups_def build_groups_loop_foldl map_fst_memberships members_in_order_def
      del: set_concat)

lemma members_in_order_Cons:
  "members_in_order (h # hs) g = replicate (count_list (groups h) g) (fqdn h) @ members_in_order hs g"
proof -
  have "map snd (filter (\<lambda>p. fst p = g) (map (\<lambda>g'. (g', n)) gs)) = replicate (count_list gs g) n"
    for gs :: "string list" and n :: string
    by (induction gs) auto
  then show ?thesis
    by (simp add: members_in_order_def memberships_def)
qed

lemma members_in_order_set:
  "set (members_in_order hosts g) = fqdn ` {h \<in> set hosts. g \<in> set (groups h)}"
proof (induction hosts)
  case Nil
  show ?case by (simp add: members_in_order_def memberships_def)
next
  case (Cons h hs)
  have "set (replicate (count_list (groups h) g) (fqdn h)) = (if g \<in> set (groups h) then {fqdn h} else {})"
    by (auto simp: count_list_0_iff)
  then show ?case
    using Cons.IH by (auto simp: members_in_order_Cons)
qed

text \<open>
  Claim C6. For every sequence of hosts, the keys of the group mapping are the group
  names in the order of their first appearance in the input, and each group lists
  the names of its hosts in the order the hosts were supplied (a host that names the
  group twice is listed twice); nothing is sorted.
\<close>

theorem build_groups_insertion_order:
  "map fst (build_groups hosts) = first_appearance (concat (map groups hosts)) \<and>
   map_of (build_groups hosts) g =
     (if g \<in> set (concat (map groups hosts))
      then Some \<lparr>group_hosts = members_in_order hosts g\<rparr> else None) \<and>
   members_in_order (h # hosts) g =
     replicate (count_list (groups h) g) (fqdn h) @ members_in_order hosts g \<and>
   members_in_order [] g = []"
  by (simp add: build_groups_keys build_groups_map_of members_in_order_Cons del: set_concat)
    (simp add: members_in_order_def memberships_def)

section \<open>The normalizer and the hostvars\<close>

lemma Host_init_fields:
  assumes "Host_init r = Inr h"
  shows "fqdn h = col_fqdn r" "groups h = split_csv (col_groups r)"
    "features h = split_csv (col_features r)" "upd h = col_upd r"
    "ip_address (col_ipaddr r) = Inr (ipaddr h)"
  using assms by (auto simp: Host_init_def split: sum.splits)

lemma process_hosts_loop_all2:
  "process_hosts_loop acc rows = Inr hosts \<Longrightarrow>
     \<exists>hs. hosts = acc @ hs \<and> list_all2 (\<lambda>r h. Host_init r = Inr h) rows hs"
proof (induction rows arbitrary: acc)
  case Nil
  then show ?case by simp
next
  case (Cons r rs)
  then obtain h where h: "Host_init r = Inr h" and rest: "process_hosts_loop (acc @ [h]) rs = Inr hosts"
    by (auto split: sum.splits)
  from Cons.IH [OF rest] obtain hs where "hosts = (acc @ [h]) @ hs"
    and "list_all2 (\<lambda>r h. Host_init r = Inr h) rs hs" by blast
  with h show ?case by (intro exI [of _ "h # hs"]) simp
qed

lemma process_hosts_all2:
  "process_hosts rows = Inr hosts \<Longrightarrow> list_all2 (\<lambda>r h. Host_init r = Inr h) rows hosts"
  using process_hosts_loop_all2 [of "[]" rows hosts] by (auto simp: process_hosts_def)

lemma process_hosts_fqdn:
  assumes "process_hosts rows = Inr hosts"
  shows "map fqdn hosts = map col_fqdn rows"
proof -
  have "list_all2 (\<lambda>r h. Host_init r = Inr h) rows hosts \<Longrightarrow> map fqdn hosts = map col_fqdn rows"
    by (induction rule: list_all2_induct) (auto simp: Host_init_fields)
  with assms show ?thesis by (simp add: process_hosts_all2)
qed

lemma put_pair: "put d (k, v) = AList.update k v d"
  by (simp add: put_def)

lemma foldl_put_keys:
  "map fst (foldl put [] ps) = first_appearance (map fst ps)"
proof (induction ps rule: rev_induct)
  case Nil
  show ?case by (simp add: first_appearance_def)
next
  case (snoc p ps)
  have "set (map fst (foldl put [] ps)) = set (map fst ps)"
    using snoc.IH by (simp add: set_first_appearance del: set_map)
  then show ?case
    using snoc.IH by (simp add: put_def update_keys first_appearance_snoc del: set_map)
qed

lemma foldl_put_map_of:
  "map_of (foldl put d ps) k = (case map_of (rev ps) k of Some v \<Rightarrow> Some v | None \<Rightarrow> map_of d k)"
  by (induction ps rule: rev_induct) (auto simp: put_def update_conv')

lemma build_hostvars_loop_foldl:
  "build_hostvars_loop d hosts = Inr d' \<Longrightarrow>
     \<exists>ds. list_all2 (\<lambda>h x. host_dict h = Inr x) hosts ds \<and>
          d' = foldl put d (zip (map fqdn hosts) ds)"
proof (induction hosts arbitrary: d)
  case Nil
  then show ?case by simp
next
  case (Cons h hs)
  then obtain x where x: "host_dict h = Inr x"
    and rest: "build_hostvars_loop (AList.update (fqdn h) x d) hs = Inr d'"
    by (auto split: sum.splits)
  from Cons.IH [OF rest] obtain ds where "list_all2 (\<lambda>h x. host_dict h = Inr x) hs ds"
    and "d' = foldl put (AList.update (fqdn h) x d) (zip (map fqdn hs) ds)" by blast
  with x show ?case by (intro exI [of _ "x # ds"]) (simp add: put_pair)
qed

lemma build_hostvars_keys:
  assumes "build_hostvars hosts = Inr hostvars"
  shows "map fst hostvars = first_appearance (map fqdn hosts)"
proof -
  from assms obtain ds where ds: "list_all2 (\<lambda>h x. host_dict h = Inr x) hosts ds"
    and hv: "hostvars = foldl put [] (zip (map fqdn hosts) ds)"
    using build_hostvars_loop_foldl [of "[]" hosts hostvars] by (auto simp: build_hostvars_def)
  have "length ds = length hosts" using ds by (simp add: list_all2_lengthD)
  then show ?thesis by (simp add: hv foldl_put_keys)
qed

lemma build_hostvars_lookup:
  assumes "build_hostvars hosts = Inr hostvars" and "map_of hostvars k = Some x"
  shows "\<exists>h \<in> set hosts. fqdn h = k \<and> host_dict h = Inr x"
proof -
  from assms obtain ds where ds: "list_all2 (\<lambda>h x. host_dict h = Inr x) hosts ds"
    and hv: "hostvars = foldl put [] (zip (map fqdn hosts) ds)"
    using build_hostvars_loop_foldl [of "[]" hosts hostvars] by (auto simp: build_hostvars_def)
  from assms(2) have "map_of (rev (zip (map fqdn hosts) ds)) k = Some x"
    by (simp add: hv foldl_put_map_of split: option.splits)
  then have "(k, x) \<in> set (zip (map fqdn hosts) ds)"
    by (auto dest: map_of_SomeD)
  then obtain i where i: "i < length hosts" "i < length ds" "fqdn (hosts ! i) = k" "ds ! i = x"
    by (auto simp: set_zip)
  with ds have "host_dict (hosts ! i) = Inr x"
    by (auto simp: list_all2_conv_all_nth)
  with i show ?thesis by (intro bexI [of _ "hosts ! i"]) auto
qed

lemma distinct_keys_unique_entry:
  "distinct (map fst al) \<Longrightarrow> k \<in> set (map fst al) \<Longrightarrow> length (filter (\<lambda>p. fst p = k) al) = 1"
proof (induction al)
  case Nil
  then show ?case by simp
next
  case (Cons p al)
  show ?case
  proof (cases "fst p = k")
    case True
    with Cons.prems have "filter (\<lambda>p. fst p = k) al = []"
      by (auto simp: filter_empty_conv image_iff)
    with True show ?thesis by simp
  next
    case False
    with Cons show ?thesis by auto
  qed
qed

lemma sort_first_appearance:
  "sort (first_appearance xs) = sorted_list_of_set (set xs)"
proof (rule sorted_distinct_set_unique)
  show "sorted (sort (first_appearance xs))" by simp
  show "distinct (sort (first_appearance xs))" by (simp add: distinct_first_appearance)
  show "sorted (sorted_list_of_set (set xs))" by simp
  show "distinct (sorted_list_of_set (set xs))" by simp
  show "set (sort (first_appearance xs)) = set (sorted_list_of_set (set xs))"
    by (simp add: set_first_appearance)
qed

lemma row_has_host:
  assumes "process_hosts rows = Inr hosts" and "r \<in> set rows"
  shows "\<exists>h \<in> set hosts. Host_init r = Inr h"
proof -
  from assms(2) obtain i where i: "i < length rows" "rows ! i = r"
    by (auto simp: in_set_conv_nth)
  from process_hosts_all2 [OF assms(1)] i have "i < length hosts" "Host_init r = Inr (hosts ! i)"
    by (auto simp: list_all2_conv_all_nth)
  then show ?thesis by (intro bexI [of _ "hosts ! i"]) auto
qed

text \<open>
  Claim C1. Let the rows have pairwise different \<open>fqdn\<close> (the column is unique in
  the store) and let the inventory be built from them. For a row whose \<open>groups\<close>
  column is null or the empty string, no group of the group mapping lists the row's
  \<open>fqdn\<close>, and the hostvars mapping has exactly one entry with that key.
\<close>

theorem ungrouped_host_only_in_hostvars:
  assumes ph: "process_hosts rows = Inr hosts"
    and bh: "build_hostvars hosts = Inr hostvars"
    and dist: "distinct (map col_fqdn rows)"
    and r: "r \<in> set rows"
    and empty: "col_groups r = None \<or> col_groups r = Some []"
  shows "(\<forall>g e. map_of (build_groups hosts) g = Some e \<longrightarrow> col_fqdn r \<notin> set (group_hosts e)) \<and>
         length (filter (\<lambda>p. fst p = col_fqdn r) hostvars) = 1"
proof -
  from row_has_host [OF ph r] obtain h where h: "h \<in> set hosts" "Host_init r = Inr h" by blast
  then have fq: "fqdn h = col_fqdn r" and gr: "groups h = []"
    using empty by (auto simp: Host_init_fields split_csv_def)
  have inj: "inj_on fqdn (set hosts)"
    using dist by (simp add: process_hosts_fqdn [OF ph, symmetric] distinct_map)
  have "col_fqdn r \<notin> set (group_hosts e)" if "map_of (build_groups hosts) g = Some e" for g e
  proof
    assume mem: "col_fqdn r \<in> set (group_hosts e)"
    from that have "e = \<lparr>group_hosts = members_in_order hosts g\<rparr>"
      by (simp add: build_groups_map_of split: if_splits)
    with mem have "col_fqdn r \<in> fqdn ` {h \<in> set hosts. g \<in> set (groups h)}"
      by (simp add: members_in_order_set)
    then obtain h' where h': "h' \<in> set hosts" "g \<in> set (groups h')" "fqdn h' = fqdn h"
      by (auto simp: fq)
    with inj h(1) have "h' = h" by (auto dest: inj_onD)
    with h'(2) gr show False by simp
  qed
  moreover have "length (filter (\<lambda>p. fst p = col_fqdn r) hostvars) = 1"
  proof (rule distinct_keys_unique_entry)
    show "distinct (map fst hostvars)"
      by (simp add: build_hostvars_keys [OF bh] distinct_first_appearance)
    show "col_fqdn r \<in> set (map fst hostvars)"
      using h(1) fq by (simp add: build_hostvars_keys [OF bh] set_first_appearance del: set_map) force
  qed
  ultimately show ?thesis by blast
qed

text \<open>
  Claim C7. \<open>get group --list\<close> prints, one per line, the sorted list of the set of
  group names of the hosts: the output depends on the set of names only, not on the
  order in which the rows introduce them.
\<close>

theorem group_list_sorted:
  assumes "process_hosts rows = Inr hosts"
    and "build_hostvars hosts = Inr hostvars"
    and "subparser a = Some ''get''"
    and "get_subparser a = Some ''group''"
    and "arg_list a"
  shows "main_get a rows = ([Lines (sorted_list_of_set (set (concat (map groups hosts))))], None) \<and>
         sorted_list_of_set (set (concat (map groups hosts))) = sort (map fst (build_groups hosts)) \<and>
         sorted (sort (map fst (build_groups hosts)))"
  using assms
  by (simp add: main_get_def truthy_def build_groups_keys sort_first_appearance del: set_concat)

text \<open>
  Claim C4. \<open>get group G\<close> on a built inventory: when \<open>G\<close> is not a key of the group
  mapping the program prints \<open>No group matching G\<close> and exits with status 1; when
  \<open>G\<close> is a key it prints the members of that group (\<open>dump\<close> sorts them), exits
  with status 0, and the member list is not empty.
\<close>

theorem group_by_name:
  assumes "process_hosts rows = Inr hosts"
    and "build_hostvars hosts = Inr hostvars"
    and "subparser a = Some ''get''"
    and "get_subparser a = Some ''group''"
    and "\<not> arg_list a"
  shows "(arg_name a \<notin> set (map fst (build_groups hosts)) \<longrightarrow>
            main_get a rows = ([Text (''No group matching '' @ arg_name a)], Some (SystemExit 1)) \<and>
            exit_status (snd (main_get a rows)) = 1) \<and>
         (\<forall>e. map_of (build_groups hosts) (arg_name a) = Some e \<longrightarrow>
            main_get a rows = ([Lines (sort (group_hosts e))], None) \<and>
            exit_status (snd (main_get a rows)) = 0 \<and>
            group_hosts e \<noteq> [])"
proof -
  have "group_hosts e \<noteq> []" if "map_of (build_groups hosts) g = Some e" for g e
  proof -
    from that have g: "g \<in> set (concat (map groups hosts))" and e: "e = \<lparr>group_hosts = members_in_order hosts g\<rparr>"
      by (simp_all add: build_groups_map_of del: set_concat split: if_splits)
    from g obtain h where "h \<in> set hosts" "g \<in> set (groups h)" by auto
    then have "fqdn h \<in> set (members_in_order hosts g)"
      by (auto simp: members_in_order_set)
    with e show ?thesis by auto
  qed
  then show ?thesis
    using assms by (auto simp: main_get_def truthy_def map_of_eq_None_iff [symmetric])
qed

lemma hostvar_subset_loop_foldl:
  "set ks \<subseteq> dom (map_of hostvars) \<Longrightarrow>
     hostvar_subset_loop hostvars sub ks =
       Inr (foldl put sub (map (\<lambda>k. (k, the (map_of hostvars k))) ks))"
  by (induction ks arbitrary: sub) (auto simp: put_pair)

lemma first_appearance_filter:
  "first_appearance (filter P xs) = filter P (first_appearance xs)"
  by (simp add: first_appearance_def rev_filter remdups_filter)

lemma map_of_filter_key:
  "map_of (filter (\<lambda>p. P (fst p)) al) k = (if P k then map_of al k else None)"
  by (induction al) auto

lemma map_of_graph:
  "map_of (map (\<lambda>k. (k, f k)) ks) k = (if k \<in> set ks then Some (f k) else None)"
  by (induction ks) auto

lemma map_of_rev_graph:
  "map_of (rev (map (\<lambda>k. (k, f k)) ks)) k = (if k \<in> set ks then Some (f k) else None)"
  using map_of_graph [of f "rev ks" k] by (simp add: rev_map)

lemma alist_eqI:
  assumes "map fst xs = map fst ys" and "distinct (map fst xs)" and "map_of xs = map_of ys"
  shows "xs = ys"
proof -
  have len: "length xs = length ys" using assms(1) by (metis length_map)
  have "map_of (zip (map fst xs) (map snd xs)) = map_of xs"
    by (simp only: zip_map_fst_snd)
  also have "\<dots> = map_of ys" by (rule assms(3))
  also have "\<dots> = map_of (zip (map fst ys) (map snd ys))"
    by (simp only: zip_map_fst_snd)
  also have "\<dots> = map_of (zip (map fst xs) (map snd ys))"
    by (simp only: assms(1))
  finally have "map snd xs = map snd ys"
    using assms(2) len by (intro map_of_zip_inject [of _ "map fst xs"]) simp_all
  then have "zip (map fst xs) (map snd xs) = zip (map fst ys) (map snd ys)"
    by (simp only: assms(1))
  then show ?thesis by (simp only: zip_map_fst_snd)
qed

lemma subset_is_filter:
  assumes bh: "build_hostvars hosts = Inr hostvars"
  shows "hostvar_subset_loop hostvars [] (map fqdn (filter (\<lambda>h. P (fqdn h)) hosts)) =
           Inr (filter (\<lambda>p. P (fst p)) hostvars)"
proof -
  let ?ks = "map fqdn (filter (\<lambda>h. P (fqdn h)) hosts)"
  let ?sub = "foldl put [] (map (\<lambda>k. (k, the (map_of hostvars k))) ?ks)"
  have keys: "map fst hostvars = first_appearance (map fqdn hosts)"
    by (rule build_hostvars_keys [OF bh])
  have ks: "?ks = filter P (map fqdn hosts)"
    by (simp add: filter_map comp_def)
  have "dom (map_of hostvars) = set (map fst hostvars)"
    by (simp add: dom_map_of_conv_image_fst)
  also have "\<dots> = set (map fqdn hosts)"
    by (simp only: keys set_first_appearance)
  finally have dom: "dom (map_of hostvars) = set (map fqdn hosts)" .
  then have sub: "set ?ks \<subseteq> dom (map_of hostvars)" by auto
  have "?sub = filter (\<lambda>p. P (fst p)) hostvars"
  proof (rule alist_eqI)
    have "map fst ?sub = first_appearance ?ks"
      by (simp add: foldl_put_keys comp_def)
    also have "\<dots> = filter P (map fst hostvars)"
      by (simp only: ks first_appearance_filter keys)
    finally show "map fst ?sub = map fst (filter (\<lambda>p. P (fst p)) hostvars)"
      by (simp add: filter_map comp_def)
    then show "distinct (map fst ?sub)"
      by (simp add: distinct_map_filter keys distinct_first_appearance)
    show "map_of ?sub = map_of (filter (\<lambda>p. P (fst p)) hostvars)"
    proof
      fix k
      have "map_of (rev (map (\<lambda>k. (k, the (map_of hostvars k))) ?ks)) k =
              (if k \<in> set ?ks then Some (the (map_of hostvars k)) else None)"
        by (rule map_of_rev_graph)
      moreover have "k \<in> set ?ks \<longleftrightarrow> P k \<and> k \<in> dom (map_of hostvars)"
        by (subst dom) auto
      ultimately show "map_of ?sub k = map_of (filter (\<lambda>p. P (fst p)) hostvars) k"
        by (auto simp: foldl_put_map_of map_of_filter_key split: option.splits)
    qed
  qed
  with sub show ?thesis by (simp only: hostvar_subset_loop_foldl)
qed

text \<open>
  Claim C2. \<open>get host X\<close> with \<open>X\<close> other than \<open>all\<close>, on a built inventory, prints
  exactly the hostvars entries whose key has the prefix \<open>X\<close>, in the order of the
  hostvars; when no key has that prefix it prints the empty mapping and raises nothing.
\<close>

theorem host_by_name_prefix:
  assumes "process_hosts rows = Inr hosts"
    and "build_hostvars hosts = Inr hostvars"
    and "subparser a = Some ''get''"
    and "get_subparser a = Some ''host''"
    and "arg_name a \<noteq> ''all''"
  shows "main_get a rows =
           ([Json (Hostvars_dict (filter (\<lambda>p. prefix (arg_name a) (fst p)) hostvars))], None) \<and>
         ((\<forall>k \<in> set (map fst hostvars). \<not> prefix (arg_name a) k) \<longrightarrow>
            main_get a rows = ([Json (Hostvars_dict [])], None))"
proof -
  have "main_get a rows =
           ([Json (Hostvars_dict (filter (\<lambda>p. prefix (arg_name a) (fst p)) hostvars))], None)"
    using assms by (simp add: main_get_def truthy_def subset_is_filter [OF assms(2)])
  moreover have "filter (\<lambda>p. prefix (arg_name a) (fst p)) hostvars = []"
    if "\<forall>k \<in> set (map fst hostvars). \<not> prefix (arg_name a) k"
    using that by (auto simp: filter_empty_conv)
  ultimately show ?thesis by simp
qed

section \<open>Evaluation of the examples\<close>

lemma format_x_small: "n < 16 \<Longrightarrow> format_x n = [hex_char n]"
  by (simp add: format_x.simps)

lemma format_x_large: "\<not> n < 16 \<Longrightarrow> format_x n = format_x (n div 16) @ [hex_char (n mod 16)]"
  by (subst format_x.simps) simp

lemma str_nat_small: "n < 10 \<Longrightarrow> str_nat n = [digit_char n]"
  by (simp add: str_nat.simps)

lemma str_nat_large: "\<not> n < 10 \<Longrightarrow> str_nat n = str_nat (n div 10) @ [digit_char (n mod 10)]"
  by (subst str_nat.simps) simp

lemma replicate_numeral: "replicate (numeral k) x = x # replicate (pred_numeral k) x"
  by (simp add: numeral_eq_Suc)

lemmas parse_eval = ip_address_def IPv4Address_init_def IPv6Address_init_def
  ipv4_int_from_string_def ipv6_int_from_string_def ipv6_int_from_parts_def parse_octet_def
  parse_hextet_def
  int_of_digits_def digit_val_def is_decimal_digit_def is_hex_digit_def split_scope_id_def
  Let_def format_x_small format_x_large hex_char_def

lemmas render_eval = exploded_def zpad_def format_x_small format_x_large hex_char_def
  to_bytes4_def str_nat_small str_nat_large digit_char_def replicate_numeral strftime_upd_def

lemma example_process: "process_hosts example_rows = Inr example_hosts"
  by (simp add: process_hosts_def example_rows_def example_row_def example_hosts_def
      example_host_def Host_init_def split_csv_def parse_eval)

lemma example_build: "build_hostvars example_hosts = Inr example_hostvars"
  by (simp add: build_hostvars_def example_hosts_def example_host_def example_hostvars_def
      example_hostvar_def host_dict_def example_upd_def render_eval)

lemma example_groups:
  "build_groups example_hosts =
     [(''web'', \<lparr>group_hosts = [''web1.example.com'', ''web2.example.com'']\<rparr>),
      (''prod'', \<lparr>group_hosts = [''web1.example.com'', ''web2.example.com'']\<rparr>)]"
  by (simp add: build_groups_def example_hosts_def example_host_def add_to_group_def)

theorem build_groups_insertion_order_witness:
  "map fst (build_groups example_hosts) = [''web'', ''prod''] \<and>
   map_of (build_groups example_hosts) ''prod'' =
     Some \<lparr>group_hosts = [''web1.example.com'', ''web2.example.com'']\<rparr>"
proof -
  have f: "first_appearance (concat (map groups example_hosts)) = [''web'', ''prod'']"
    by (simp add: first_appearance_def example_hosts_def example_host_def)
  have m: "members_in_order example_hosts ''prod'' = [''web1.example.com'', ''web2.example.com'']"
    by (simp add: members_in_order_def memberships_def example_hosts_def example_host_def)
  have g: "''prod'' \<in> set (concat (map groups example_hosts))"
    by (simp add: example_hosts_def example_host_def)
  from build_groups_insertion_order [of example_hosts "''prod''"] f m g
  show ?thesis by (simp del: set_concat)
qed

theorem ungrouped_host_only_in_hostvars_witness:
  "process_hosts example_rows = Inr example_hosts \<and>
   build_hostvars example_hosts = Inr example_hostvars \<and>
   distinct (map col_fqdn example_rows) \<and>
   example_row ''db1.example.com'' ''::1'' (Some '''') \<in> set example_rows \<and>
   col_groups (example_row ''db1.example.com'' ''::1'' (Some '''')) = Some [] \<and>
   ''db1.example.com'' \<notin> set [''web1.example.com'', ''web2.example.com''] \<and>
   length (filter (\<lambda>p. fst p = ''db1.example.com'') example_hostvars) = 1"
proof -
  have d: "distinct (map col_fqdn example_rows)"
    by (simp add: example_rows_def example_row_def)
  have r: "example_row ''db1.example.com'' ''::1'' (Some '''') \<in> set example_rows"
    by (simp add: example_rows_def)
  have e: "col_groups (example_row ''db1.example.com'' ''::1'' (Some '''')) = None \<or>
           col_groups (example_row ''db1.example.com'' ''::1'' (Some '''')) = Some []"
    by (simp add: example_row_def)
  from ungrouped_host_only_in_hostvars [OF example_process example_build d r e]
  have "length (filter (\<lambda>p. fst p = ''db1.example.com'') example_hostvars) = 1"
    by (simp add: example_row_def)
  with d r show ?thesis
    by (simp add: example_process example_build example_row_def)
qed

theorem group_list_sorted_witness:
  "process_hosts example_rows = Inr example_hosts \<and>
   build_hostvars example_hosts = Inr example_hostvars \<and>
   main_get (example_args (Some ''group'') [] True) example_rows = ([Lines [''prod'', ''web'']], None)"
proof -
  have "sort (map fst (build_groups example_hosts)) = [''prod'', ''web'']"
    by (simp add: example_groups)
  with group_list_sorted [OF example_process example_build, of "example_args (Some ''group'') [] True"]
  show ?thesis
    by (simp add: example_process example_build example_args_def)
qed

theorem group_by_name_witness:
  "process_hosts example_rows = Inr example_hosts \<and>
   build_hostvars example_hosts = Inr example_hostvars \<and>
   ''missing-group'' \<notin> set (map fst (build_groups example_hosts)) \<and>
   main_get (example_args (Some ''group'') ''missing-group'' False) example_rows =
     ([Text ''No group matching missing-group''], Some (SystemExit 1)) \<and>
   main_get (example_args (Some ''group'') ''web'' False) example_rows =
     ([Lines [''web1.example.com'', ''web2.example.com'']], None)"
proof -
  have m: "''missing-group'' \<notin> set (map fst (build_groups example_hosts))"
    by (simp add: example_groups)
  have w: "map_of (build_groups example_hosts) ''web'' =
      Some \<lparr>group_hosts = [''web1.example.com'', ''web2.example.com'']\<rparr>"
    by (simp add: example_groups)
  from group_by_name [OF example_process example_build,
      of "example_args (Some ''group'') ''missing-group'' False"] m
  have 1: "main_get (example_args (Some ''group'') ''missing-group'' False) example_rows =
     ([Text ''No group matching missing-group''], Some (SystemExit 1))"
    by (simp add: example_args_def)
  from group_by_name [OF example_process example_build,
      of "example_args (Some ''group'') ''web'' False"] w
  have 2: "main_get (example_args (Some ''group'') ''web'' False) example_rows =
     ([Lines [''web1.example.com'', ''web2.example.com'']], None)"
    by (simp add: example_args_def)
  from m 1 2 show ?thesis
    by (simp only: example_process example_build simp_thms)
qed

theorem host_by_name_prefix_witness:
  "process_hosts example_rows = Inr example_hosts \<and>
   build_hostvars example_hosts = Inr example_hostvars \<and>
   main_get (example_args (Some ''host'') ''web'' False) example_rows =
     ([Json (Hostvars_dict (take 2 example_hostvars))], None) \<and>
   main_get (example_args (Some ''host'') ''mail'' False) example_rows =
     ([Json (Hostvars_dict [])], None)"
proof -
  from host_by_name_prefix [OF example_process example_build,
      of "example_args (Some ''host'') ''web'' False"]
  have 1: "main_get (example_args (Some ''host'') ''web'' False) example_rows =
     ([Json (Hostvars_dict (take 2 example_hostvars))], None)"
    by (simp add: example_args_def example_hostvars_def)
  from host_by_name_prefix [OF example_process example_build,
      of "example_args (Some ''host'') ''mail'' False"]
  have 2: "main_get (example_args (Some ''host'') ''mail'' False) example_rows =
     ([Json (Hostvars_dict [])], None)"
    by (simp add: example_args_def example_hostvars_def)
  from 1 2 show ?thesis
    by (simp only: example_process example_build simp_thms)
qed

section \<open>Adding a host\<close>

lemma add_host_resolved_example:
  "add_host (\<lambda>n. Resolved ''10.0.0.9'') (\<lambda>q. None) \<lparr>committed = [], is_open = True\<rparr>
     ''web9.example.com'' None (Some ''web'') None None True =
   ([], None,
    \<lparr>committed = [''INSERT INTO `server_inventory` (`fqdn`,`ipaddr`,`groups`,`enabled`) VALUES ('' @
        [CHR 0x27] @ ''web9.example.com'' @ [CHR 0x27] @ '','' @ [CHR 0x27] @ ''10.0.0.9'' @ [CHR 0x27] @
        '','' @ [CHR 0x27] @ ''web'' @ [CHR 0x27] @ '',0);''],
     is_open = False\<rparr>)"
  by (simp add: add_host_def optional_column_def write_query_def quote_field_def str_nat_small
      digit_char_def)

lemma add_host_store_failure_example:
  "add_host (\<lambda>n. Resolved ''10.0.0.9'') (\<lambda>q. Some [''1062'', ''Duplicate entry''])
     \<lparr>committed = [], is_open = True\<rparr> ''web9.example.com'' None None None None False =
   ([Text ''ERROR: Duplicate entry''], Some (SystemExit 1), \<lparr>committed = [], is_open = False\<rparr>) \<and>
   add_host (\<lambda>n. Resolved ''10.0.0.9'') (\<lambda>q. Some [''Already closed''])
     \<lparr>committed = [], is_open = True\<rparr> ''web9.example.com'' None None None None False =
   ([], Some IndexError, \<lparr>committed = [], is_open = True\<rparr>)"
  by (simp add: add_host_def optional_column_def write_query_def)




section \<open>The inventory document\<close>

lemma whole_inventory:
  assumes "process_hosts rows = Inr hosts"
    and "build_hostvars hosts = Inr hostvars"
    and "subparser a = None"
    and "arg_list a"
  shows "main_get a rows =
           ([Json (Inventory_dict
               (AList.update ''_meta'' (Meta_entry hostvars) (as_entries (build_groups hosts))))],
            None)"
  using assms by (simp add: main_get_def truthy_def build_ansible_inventory_def)

text \<open>
  Claim C9. \<open>build_ansible_inventory\<close> returns a new dictionary object that is the
  group mapping with \<open>_meta\<close> set to the hostvars entry: \<open>_meta\<close> maps to the
  metadata whether or not a group of that name existed (its member list is replaced,
  the key keeps its place), every other key is unchanged, and the dictionary object of
  the group mapping, like every object that existed before the call, is not modified.
\<close>

theorem build_ansible_inventory_meta:
  assumes "groups_ref < length st"
    and "build_ansible_inventory st groups_ref hostvars = (inventory, st')"
  shows "map_of (st' ! inventory) ''_meta'' = Some (Meta_entry hostvars) \<and>
         (\<forall>k. k \<noteq> ''_meta'' \<longrightarrow> map_of (st' ! inventory) k = map_of (st ! groups_ref) k) \<and>
         map fst (st' ! inventory) =
           (if ''_meta'' \<in> set (map fst (st ! groups_ref)) then map fst (st ! groups_ref)
            else map fst (st ! groups_ref) @ [''_meta'']) \<and>
         st' ! inventory = AList.update ''_meta'' (Meta_entry hostvars) (st ! groups_ref) \<and>
         inventory \<noteq> groups_ref \<and>
         st' ! groups_ref = st ! groups_ref \<and>
         take (length st) st' = st"
proof -
  from assms(2) have inv: "inventory = length st"
    and st': "st' = st @ [AList.update ''_meta'' (Meta_entry hostvars) (st ! groups_ref)]"
    by (auto simp: build_ansible_inventory_def Let_def)
  have new: "st' ! length st = AList.update ''_meta'' (Meta_entry hostvars) (st ! groups_ref)"
    by (simp add: st')
  have old: "st' ! groups_ref = st ! groups_ref"
    using assms(1) by (simp add: st' nth_append)
  have tk: "take (length st) st' = st"
    by (simp add: st')
  show ?thesis
    using assms(1) by (simp add: new old tk update_conv' update_keys inv del: set_map)
qed

theorem build_ansible_inventory_meta_witness:
  "(0::nat) < length [[(''_meta'', Group_entry \<lparr>group_hosts = [''h1'']\<rparr>),
                       (''web'', Group_entry \<lparr>group_hosts = [''h1'']\<rparr>)]] \<and>
   build_ansible_inventory
     [[(''_meta'', Group_entry \<lparr>group_hosts = [''h1'']\<rparr>),
       (''web'', Group_entry \<lparr>group_hosts = [''h1'']\<rparr>)]] 0 example_hostvars =
     (1, [[(''_meta'', Group_entry \<lparr>group_hosts = [''h1'']\<rparr>),
           (''web'', Group_entry \<lparr>group_hosts = [''h1'']\<rparr>)],
          [(''_meta'', Meta_entry example_hostvars),
           (''web'', Group_entry \<lparr>group_hosts = [''h1'']\<rparr>)]]) \<and>
   map_of [(''_meta'', Meta_entry example_hostvars),
           (''web'', Group_entry \<lparr>group_hosts = [''h1'']\<rparr>)] ''_meta'' =
     Some (Meta_entry example_hostvars)"
proof -
  let ?g = "[(''_meta'', Group_entry \<lparr>group_hosts = [''h1'']\<rparr>),
             (''web'', Group_entry \<lparr>group_hosts = [''h1'']\<rparr>)]"
  let ?i = "[(''_meta'', Meta_entry example_hostvars),
             (''web'', Group_entry \<lparr>group_hosts = [''h1'']\<rparr>)]"
  have l: "(0::nat) < length [?g]" by simp
  have b: "build_ansible_inventory [?g] 0 example_hostvars = (1, [?g, ?i])"
    by (simp add: build_ansible_inventory_def)
  from build_ansible_inventory_meta [OF l b]
  have "map_of ([?g, ?i] ! 1) ''_meta'' = Some (Meta_entry example_hostvars)" by blast
  with l b show ?thesis by simp
qed

section \<open>Comma-separated columns\<close>

text \<open>
  Claim C10. A non-empty \<open>groups\<close> or \<open>features\<close> string is split at every comma
  and nothing else is done to it: joining the parts with commas gives the string back,
  and there is one part more than there are commas. A trailing or doubled comma
  therefore yields an empty part, and the host is then listed in the group whose name
  is the empty string.
\<close>

theorem split_csv_verbatim:
  assumes "Host_init r = Inr h"
  shows "(\<forall>s. col_groups r = Some s \<and> s \<noteq> [] \<longrightarrow>
            groups h = split (CHR '','') s \<and> join '','' (groups h) = s \<and>
            length (groups h) = Suc (count_list s (CHR '','')) \<and>
            ((\<exists>u. s = u @ '','') \<or> (\<exists>u v. s = u @ '',,'' @ v) \<longrightarrow>
               [] \<in> set (groups h) \<and>
               (\<forall>hosts. h \<in> set hosts \<longrightarrow>
                  (\<exists>e. map_of (build_groups hosts) [] = Some e \<and> fqdn h \<in> set (group_hosts e))))) \<and>
         (\<forall>s. col_features r = Some s \<and> s \<noteq> [] \<longrightarrow>
            features h = split (CHR '','') s \<and> join '','' (features h) = s \<and>
            length (features h) = Suc (count_list s (CHR '','')))"
proof -
  have groups_part: "groups h = split (CHR '','') s \<and> join '','' (groups h) = s \<and>
            length (groups h) = Suc (count_list s (CHR '','')) \<and>
            ((\<exists>u. s = u @ '','') \<or> (\<exists>u v. s = u @ '',,'' @ v) \<longrightarrow>
               [] \<in> set (groups h) \<and>
               (\<forall>hosts. h \<in> set hosts \<longrightarrow>
                  (\<exists>e. map_of (build_groups hosts) [] = Some e \<and> fqdn h \<in> set (group_hosts e))))"
    if s: "col_groups r = Some s" "s \<noteq> []" for s
  proof -
    have g: "groups h = split (CHR '','') s"
      using assms s by (simp add: Host_init_fields split_csv_def)
    have empty: "[] \<in> set (groups h)"
      if "(\<exists>u. s = u @ '','') \<or> (\<exists>u v. s = u @ '',,'' @ v)"
      using that g split_trailing_sep [of "CHR '',''"] split_doubled_sep [of "CHR '',''"]
      by auto
    have member: "\<exists>e. map_of (build_groups hosts) [] = Some e \<and> fqdn h \<in> set (group_hosts e)"
      if "[] \<in> set (groups h)" "h \<in> set hosts" for hosts
    proof -
      from that have "fqdn h \<in> set (members_in_order hosts [])"
        by (auto simp: members_in_order_set)
      moreover from that have "map_of (build_groups hosts) [] = Some \<lparr>group_hosts = members_in_order hosts []\<rparr>"
        by (auto simp: build_groups_map_of)
      ultimately show ?thesis by simp
    qed
    from g empty member show ?thesis
      by (simp add: split_join [of "CHR '',''", simplified] length_split)
  qed
  have features_part: "features h = split (CHR '','') s \<and> join '','' (features h) = s \<and>
            length (features h) = Suc (count_list s (CHR '',''))"
    if s: "col_features r = Some s" "s \<noteq> []" for s
    using assms s
    by (simp add: Host_init_fields split_csv_def split_join [of "CHR '',''", simplified] length_split)
  from groups_part features_part show ?thesis by blast
qed

theorem split_csv_verbatim_witness:
  "Host_init (example_row ''a.example.com'' ''10.0.0.1'' (Some ''a,'')) =
     Inr (example_host ''a.example.com'' (IPv4Address 167772161) [''a'', []]) \<and>
   groups (example_host ''a.example.com'' (IPv4Address 167772161) [''a'', []]) =
     split (CHR '','') ''a,'' \<and>
   map_of (build_groups [example_host ''a.example.com'' (IPv4Address 167772161) [''a'', []]]) [] =
     Some \<lparr>group_hosts = [''a.example.com'']\<rparr>"
proof -
  let ?r = "example_row ''a.example.com'' ''10.0.0.1'' (Some ''a,'')"
  let ?h = "example_host ''a.example.com'' (IPv4Address 167772161) [''a'', []]"
  have i: "Host_init ?r = Inr ?h"
    by (simp add: example_row_def example_host_def Host_init_def split_csv_def parse_eval)
  have c: "col_groups ?r = Some ''a,''" by (simp add: example_row_def)
  from split_csv_verbatim [OF i] c have g: "groups ?h = split (CHR '','') ''a,''"
    by simp
  have m: "map_of (build_groups [?h]) [] = Some \<lparr>group_hosts = [''a.example.com'']\<rparr>"
    by (simp add: build_groups_def example_host_def add_to_group_def)
  from i g m show ?thesis by (simp only: simp_thms)
qed

section \<open>Rendering of addresses\<close>

lemma length_hexw: "length (hexw w n) = w"
  by (induction w arbitrary: n) simp_all

lemma hexw_zero: "hexw w 0 = replicate w (CHR ''0'')"
  by (induction w) (simp_all add: hex_char_def replicate_append_same)

lemma length_format_x: "0 < w \<Longrightarrow> n < 16 ^ w \<Longrightarrow> length (format_x n) \<le> w"
proof (induction w arbitrary: n)
  case 0
  then show ?case by simp
next
  case (Suc w)
  show ?case
  proof (cases "n < 16")
    case True
    then show ?thesis by (simp add: format_x_small)
  next
    case False
    with Suc.prems have w: "0 < w" by (cases w) auto
    from Suc.prems have "n div 16 < 16 ^ w"
      by (simp add: less_mult_imp_div_less mult.commute)
    with Suc.IH w have "length (format_x (n div 16)) \<le> w" by blast
    with False show ?thesis by (simp add: format_x_large)
  qed
qed

lemma zpad_format_x: "0 < w \<Longrightarrow> n < 16 ^ w \<Longrightarrow> zpad w (format_x n) = hexw w n"
proof (induction w arbitrary: n)
  case 0
  then show ?case by simp
next
  case (Suc w)
  show ?case
  proof (cases "n < 16")
    case True
    then show ?thesis
      by (simp add: format_x_small zpad_def hexw_zero)
  next
    case False
    with Suc.prems have w: "0 < w" by (cases w) auto
    from Suc.prems have lt: "n div 16 < 16 ^ w"
      by (simp add: less_mult_imp_div_less mult.commute)
    with Suc.IH w have "zpad w (format_x (n div 16)) = hexw w (n div 16)" by blast
    with False show ?thesis
      by (simp add: format_x_large zpad_def)
  qed
qed

lemma hexw_add: "hexw (a + b) n = hexw a (n div 16 ^ b) @ hexw b n"
proof (induction b arbitrary: n)
  case 0
  show ?case by simp
next
  case (Suc b)
  have "n div 16 div 16 ^ b = n div (16 * 16 ^ b)"
    by (simp add: div_mult2_eq)
  with Suc show ?case by simp
qed

lemma hexw_mod: "hexw w (n mod 16 ^ w) = hexw w n"
proof (induction w arbitrary: n)
  case 0
  show ?case by simp
next
  case (Suc w)
  have 1: "n mod (16 * 16 ^ w) div 16 = n div 16 mod 16 ^ w"
    by (simp add: mod_mult2_eq)
  have 2: "n mod (16 * 16 ^ w) mod 16 = n mod 16"
    by (simp add: mod_mult2_eq)
  show ?case
    using Suc [of "n div 16"] by (simp add: 1 2)
qed

lemma hexw_32:
  "hexw 32 n = hexw 4 (n div 16 ^ 28) @ hexw 4 (n div 16 ^ 24) @ hexw 4 (n div 16 ^ 20) @
     hexw 4 (n div 16 ^ 16) @ hexw 4 (n div 16 ^ 12) @ hexw 4 (n div 16 ^ 8) @
     hexw 4 (n div 16 ^ 4) @ hexw 4 n"
  using hexw_add [of 28 4 n] hexw_add [of 24 4 "n div 16 ^ 4"] hexw_add [of 20 4 "n div 16 ^ 8"]
    hexw_add [of 16 4 "n div 16 ^ 12"] hexw_add [of 12 4 "n div 16 ^ 16"]
    hexw_add [of 8 4 "n div 16 ^ 20"] hexw_add [of 4 4 "n div 16 ^ 24"]
  by (simp add: div_mult2_eq [symmetric])

lemma hextet_hex:
  "zpad 4 (format_x (n div 65536 ^ k mod 65536)) = hexw 4 (n div 16 ^ (4 * k))"
proof -
  have "zpad 4 (format_x (n div 65536 ^ k mod 65536)) = hexw 4 (n div 65536 ^ k mod 16 ^ 4)"
    by (subst zpad_format_x) simp_all
  also have "\<dots> = hexw 4 (n div 65536 ^ k)" by (rule hexw_mod)
  finally have "zpad 4 (format_x (n div 65536 ^ k mod 65536)) = hexw 4 (n div 65536 ^ k)" .
  moreover have "(65536::nat) ^ k = 16 ^ (4 * k)"
    by (simp add: power_mult)
  ultimately show ?thesis by simp
qed

lemma exploded_is_expanded_form:
  assumes "n < 2 ^ 128"
  shows "exploded (IPv6Address n None) = Inr (expanded_form (IPv6Address n None))"
proof -
  have "n < 16 ^ 32" using assms by simp
  then have z: "zpad 32 (format_x n) = hexw 32 n"
    by (intro zpad_format_x) simp_all
  have slices: "map (\<lambda>x. take 4 (drop x (hexw 32 n))) [0, 4, 8, 12, 16, 20, 24, 28] =
      [hexw 4 (n div 16 ^ 28), hexw 4 (n div 16 ^ 24), hexw 4 (n div 16 ^ 20),
       hexw 4 (n div 16 ^ 16), hexw 4 (n div 16 ^ 12), hexw 4 (n div 16 ^ 8),
       hexw 4 (n div 16 ^ 4), hexw 4 n]"
    by (simp only: hexw_32) (simp add: length_hexw)
  have groups: "map (\<lambda>g. zpad 4 (format_x g)) (hextets n) =
      [hexw 4 (n div 16 ^ 28), hexw 4 (n div 16 ^ 24), hexw 4 (n div 16 ^ 20),
       hexw 4 (n div 16 ^ 16), hexw 4 (n div 16 ^ 12), hexw 4 (n div 16 ^ 8),
       hexw 4 (n div 16 ^ 4), hexw 4 n]"
    using hextet_hex [of n 7] hextet_hex [of n 6] hextet_hex [of n 5] hextet_hex [of n 4]
      hextet_hex [of n 3] hextet_hex [of n 2] hextet_hex [of n 1] hextet_hex [of n 0]
    by (simp add: hextets_def)
  show ?thesis
    by (simp only: exploded_def expanded_form_def ip_address.case option.case Let_def z slices groups)
qed

lemma shift_bound:
  assumes "a < A" and "d < (b::nat)"
  shows "a * b + d < A * b"
proof -
  from assms(1) have "Suc a * b \<le> A * b"
    by (intro mult_le_mono1) simp
  with assms(2) show ?thesis by simp
qed

lemma hex_digit_val: "is_hex_digit c \<Longrightarrow> digit_val c < 16"
  by (auto simp: is_hex_digit_def digit_val_def)

lemma int_of_hex_digits_bound:
  "list_all is_hex_digit s \<Longrightarrow> int_of_digits 16 s < 16 ^ length s"
proof (induction s rule: rev_induct)
  case Nil
  show ?case by (simp add: int_of_digits_def)
next
  case (snoc c s)
  then have "int_of_digits 16 s < 16 ^ length s" and "digit_val c < 16"
    by (simp_all add: hex_digit_val)
  then have "int_of_digits 16 s * 16 + digit_val c < 16 ^ length s * 16"
    by (rule shift_bound)
  then show ?case by (simp add: int_of_digits_def)
qed

lemma parse_hextet_bound: "parse_hextet p = Some h \<Longrightarrow> h < 65536"
proof -
  assume a: "parse_hextet p = Some h"
  then have h: "h = int_of_digits 16 p" and d: "list_all is_hex_digit p" and l: "length p \<le> 4"
    by (auto simp: parse_hextet_def split: if_splits)
  have "int_of_digits 16 p < 16 ^ length p" by (rule int_of_hex_digits_bound [OF d])
  also have "(16::nat) ^ length p \<le> 16 ^ 4" using l by (intro power_increasing) simp_all
  finally show ?thesis by (simp add: h)
qed

lemma shift_in_hextets_bound:
  "shift_in_hextets ip_int ps = Some n \<Longrightarrow> ip_int < 65536 ^ k \<Longrightarrow> n < 65536 ^ (k + length ps)"
proof (induction ps arbitrary: ip_int k)
  case Nil
  then show ?case by simp
next
  case (Cons p ps)
  then obtain h where h: "parse_hextet p = Some h"
    and rest: "shift_in_hextets (ip_int * 65536 + h) ps = Some n"
    by (auto split: option.splits)
  have "h < 65536" by (rule parse_hextet_bound [OF h])
  with Cons.prems(2) have "ip_int * 65536 + h < 65536 ^ k * 65536"
    by (rule shift_bound)
  then have "ip_int * 65536 + h < 65536 ^ Suc k" by simp
  from Cons.IH [OF rest this] show ?case by simp
qed

lemma ipv6_int_from_parts_bound:
  assumes "ipv6_int_from_parts parts = Some n"
  shows "n < 2 ^ 128"
proof -
  let ?skips = "filter (\<lambda>i. parts ! i = []) [1 ..< length parts - 1]"
  have pw: "(65536::nat) ^ 8 = 2 ^ 128" by simp
  show ?thesis
  proof (cases ?skips)
    case Nil
    with assms have "length parts = 8" and "shift_in_hextets 0 parts = Some n"
      by (auto simp: ipv6_int_from_parts_def Let_def split: if_splits)
    with shift_in_hextets_bound [of 0 parts n 0] have "n < 65536 ^ 8" by simp
    then show ?thesis by (simp only: pw)
  next
    case (Cons skip_index rest)
    define parts_hi where "parts_hi = (if hd parts = [] then skip_index - 1 else skip_index)"
    define parts_lo where "parts_lo =
      (if last parts = [] then length parts - skip_index - 1 - 1 else length parts - skip_index - 1)"
    from assms Cons obtain hi where le: "parts_hi + parts_lo \<le> 7"
      and hi: "shift_in_hextets 0 (take parts_hi parts) = Some hi"
      and lo: "shift_in_hextets (hi * 65536 ^ (8 - (parts_hi + parts_lo)))
                 (drop (length parts - parts_lo) parts) = Some n"
      by (auto simp: ipv6_int_from_parts_def Let_def parts_hi_def parts_lo_def
          split: if_splits option.splits)
    from shift_in_hextets_bound [OF hi, of 0] have "hi < 65536 ^ length (take parts_hi parts)"
      by simp
    also have "\<dots> \<le> 65536 ^ parts_hi"
      by (intro power_increasing) simp_all
    finally have "hi * 65536 ^ (8 - (parts_hi + parts_lo)) <
        65536 ^ parts_hi * 65536 ^ (8 - (parts_hi + parts_lo))"
      by simp
    also have "\<dots> = 65536 ^ (8 - parts_lo)"
      using le by (simp add: power_add [symmetric])
    finally have "n < 65536 ^ (8 - parts_lo + length (drop (length parts - parts_lo) parts))"
      by (rule shift_in_hextets_bound [OF lo])
    also have "\<dots> \<le> 65536 ^ 8"
      using le by (intro power_increasing) auto
    finally show ?thesis by (simp only: pw)
  qed
qed

lemma ip_address_ipv6_bound:
  assumes "ip_address s = Inr (IPv6Address n zone)"
  shows "n < 2 ^ 128"
proof -
  from assms have "IPv6Address_init s = Some (IPv6Address n zone)"
    by (auto simp: ip_address_def IPv4Address_init_def split: option.splits if_splits)
  then obtain addr where "ipv6_int_from_string addr = Some n"
    by (auto simp: IPv6Address_init_def split: if_splits option.splits)
  then obtain parts where "ipv6_int_from_parts parts = Some n"
    by (auto simp: ipv6_int_from_string_def Let_def split: if_splits option.splits ip_address.splits)
  then show ?thesis by (rule ipv6_int_from_parts_bound)
qed

section \<open>Rendered addresses in the hostvars\<close>

text \<open>
  Claim C3, as stated, fails for an address with a zone identifier: the row's
  \<open>ipaddr\<close> \<open>fe80::1%eth0\<close> parses as an IPv6 address, and rendering it raises
  \<open>ValueError\<close>, so that no hostvars are built and the read path ends in the
  exception.
\<close>

theorem scoped_address_fails_to_render:
  "Host_init (example_row ''gw.example.com'' ''fe80::1%eth0'' None) =
     Inr (example_host ''gw.example.com''
            (IPv6Address 338288524927261089654018896841347694593 (Some ''eth0'')) []) \<and>
   build_hostvars [example_host ''gw.example.com''
            (IPv6Address 338288524927261089654018896841347694593 (Some ''eth0'')) []] =
     Inl ValueError \<and>
   main_get (example_args (Some ''host'') ''all'' False)
     [example_row ''gw.example.com'' ''fe80::1%eth0'' None] = ([], Some ValueError)"
  by (simp add: example_row_def example_host_def Host_init_def split_csv_def parse_eval
      build_hostvars_def host_dict_def exploded_def main_get_def process_hosts_def example_args_def
      truthy_def)

text \<open>
  Claim C3, amended. For every row whose \<open>ipaddr\<close> parses as an IPv4 address or as an
  IPv6 address without zone identifier, the host's \<open>ipaddr\<close> in the hostvars is the
  fully expanded text of the parsed address: all eight groups zero-padded to four
  hexadecimal digits for IPv6, the dotted decimal octets for IPv4.
\<close>

theorem unscoped_address_expanded:
  assumes "Host_init r = Inr h" and "scope_id (ipaddr h) = None"
  shows "ip_address (col_ipaddr r) = Inr (ipaddr h) \<and>
         (\<exists>d. host_dict h = Inr d \<and> hv_ipaddr d = expanded_form (ipaddr h) \<and>
              build_hostvars [h] = Inr [(fqdn h, d)])"
proof -
  have p: "ip_address (col_ipaddr r) = Inr (ipaddr h)"
    using assms(1) by (rule Host_init_fields)
  have "exploded (ipaddr h) = Inr (expanded_form (ipaddr h))"
  proof (cases "ipaddr h")
    case (IPv4Address n)
    then show ?thesis by (simp add: exploded_def expanded_form_def)
  next
    case (IPv6Address n zone)
    with assms(2) have z: "zone = None" by simp
    from p IPv6Address have "n < 2 ^ 128" by (auto dest: ip_address_ipv6_bound)
    then show ?thesis
      by (simp only: IPv6Address z exploded_is_expanded_form)
  qed
  then show ?thesis
    using p by (simp add: host_dict_def build_hostvars_def)
qed

theorem unscoped_address_expanded_witness:
  "Host_init (example_row ''db1.example.com'' ''::1'' (Some '''')) =
     Inr (example_host ''db1.example.com'' (IPv6Address 1 None) []) \<and>
   scope_id (ipaddr (example_host ''db1.example.com'' (IPv6Address 1 None) [])) = None \<and>
   expanded_form (IPv6Address 1 None) = ''0000:0000:0000:0000:0000:0000:0000:0001'' \<and>
   build_hostvars [example_host ''db1.example.com'' (IPv6Address 1 None) []] =
     Inr [(''db1.example.com'', example_hostvar ''0000:0000:0000:0000:0000:0000:0000:0001'' [])]"
proof -
  let ?r = "example_row ''db1.example.com'' ''::1'' (Some '''')"
  let ?h = "example_host ''db1.example.com'' (IPv6Address 1 None) []"
  have i: "Host_init ?r = Inr ?h"
    by (simp add: example_row_def example_host_def Host_init_def split_csv_def parse_eval)
  have z: "scope_id (ipaddr ?h) = None" by (simp add: example_host_def)
  have e: "expanded_form (IPv6Address 1 None) = ''0000:0000:0000:0000:0000:0000:0000:0001''"
    by (simp add: expanded_form_def hextets_def render_eval)
  from unscoped_address_expanded [OF i z] obtain d where
    d: "host_dict ?h = Inr d" "hv_ipaddr d = expanded_form (ipaddr ?h)"
      "build_hostvars [?h] = Inr [(fqdn ?h, d)]" by blast
  from d(1) have "d = example_hostvar (hv_ipaddr d) []"
    by (auto simp: host_dict_def example_host_def example_hostvar_def example_upd_def render_eval
        split: sum.splits)
  with d(2,3) e have "build_hostvars [?h] =
      Inr [(''db1.example.com'', example_hostvar ''0000:0000:0000:0000:0000:0000:0000:0001'' [])]"
    by (simp add: example_host_def)
  with i z e show ?thesis by (simp only: simp_thms)
qed

section \<open>Rendered timestamps\<close>

lemma digit_char_props:
  assumes "d < 10"
  shows "is_decimal_digit (digit_char d)" and "digit_val (digit_char d) = d"
proof -
  from assms have "d \<in> {0, 1, 2, 3, 4, 5, 6, 7, 8, 9}" by auto
  then show "is_decimal_digit (digit_char d)" and "digit_val (digit_char d) = d"
    by (auto simp: digit_char_def is_decimal_digit_def digit_val_def)
qed

lemma int_of_digits_snoc:
  "int_of_digits b (s @ [c]) = int_of_digits b s * b + digit_val c"
  by (simp add: int_of_digits_def)

lemma str_nat_digits: "list_all is_decimal_digit (str_nat n)"
proof (induction n rule: str_nat.induct)
  case (1 n)
  show ?case
  proof (cases "n < 10")
    case True
    then show ?thesis by (simp add: str_nat_small digit_char_props)
  next
    case False
    with 1 show ?thesis by (simp add: str_nat_large digit_char_props)
  qed
qed

lemma int_of_str_nat: "int_of_digits 10 (str_nat n) = n"
proof (induction n rule: str_nat.induct)
  case (1 n)
  show ?case
  proof (cases "n < 10")
    case True
    then show ?thesis
      using int_of_digits_snoc [of 10 "[]" "digit_char n"]
      by (simp add: str_nat_small digit_char_props int_of_digits_def)
  next
    case False
    with 1 show ?thesis
      by (simp add: str_nat_large int_of_digits_snoc digit_char_props)
  qed
qed

lemma int_of_digits_zeros:
  "int_of_digits 10 (replicate k (CHR ''0'') @ s) = int_of_digits 10 s"
proof -
  have "foldl (\<lambda>acc c. acc * 10 + digit_val c) 0 (replicate k (CHR ''0'')) = 0"
    by (induction k) (simp_all add: replicate_append_same [symmetric] digit_val_def)
  then show ?thesis by (simp add: int_of_digits_def)
qed

lemma zpad_digits: "list_all is_decimal_digit s \<Longrightarrow> list_all is_decimal_digit (zpad w s)"
proof -
  have z: "is_decimal_digit (CHR ''0'')" by (simp add: is_decimal_digit_def)
  have "list_all is_decimal_digit (replicate k (CHR ''0''))" for k
    by (induction k) (simp_all add: z)
  then show "list_all is_decimal_digit s \<Longrightarrow> list_all is_decimal_digit (zpad w s)"
    by (simp add: zpad_def)
qed

lemma int_of_zpad: "int_of_digits 10 (zpad w s) = int_of_digits 10 s"
  by (simp add: zpad_def int_of_digits_zeros)

lemma length_two_digits: "n < 100 \<Longrightarrow> length (zpad 2 (str_nat n)) = 2"
  by (cases "n < 10") (simp_all add: zpad_def str_nat_small str_nat_large)

lemma length_four_digits: "1000 \<le> n \<Longrightarrow> n \<le> 9999 \<Longrightarrow> length (str_nat n) = 4"
proof -
  assume a: "1000 \<le> n" "n \<le> 9999"
  then have "\<not> n < 10" "\<not> n div 10 < 10" "\<not> n div 10 div 10 < 10" "n div 10 div 10 div 10 < 10"
    by simp_all
  then show ?thesis
    by (simp add: str_nat_small str_nat_large)
qed

lemma fields_of_timestamp:
  assumes "length Y = 4" "length D = 2" "length M = 2" "length h = 2" "length m = 2" "length c = 2"
  shows "year_day_month_format t (Y @ ''-'' @ D @ ''-'' @ M @ '' '' @ h @ '':'' @ m @ '':'' @ c) \<longleftrightarrow>
     list_all is_decimal_digit (Y @ D @ M @ h @ m @ c) \<and>
     int_of_digits 10 Y = year t \<and> int_of_digits 10 D = day t \<and> int_of_digits 10 M = month t \<and>
     int_of_digits 10 h = hour t \<and> int_of_digits 10 m = minute t \<and> int_of_digits 10 c = second t"
  using assms by (simp add: year_day_month_format_def field_def nth_append)

lemma strftime_upd_format:
  assumes "valid_datetime t"
  shows "year_day_month_format t (strftime_upd t)"
proof -
  from assms have r: "1000 \<le> year t" "year t \<le> 9999" "day t < 100" "month t < 100"
    "hour t < 100" "minute t < 100" "second t < 100"
    by (simp_all add: valid_datetime_def)
  show ?thesis
    unfolding strftime_upd_def
    by (subst fields_of_timestamp)
      (simp_all add: r length_four_digits length_two_digits zpad_digits int_of_zpad str_nat_digits int_of_str_nat)
qed

text \<open>
  Claim C5. For hosts whose \<open>upd\<close> is a timestamp of the store, every entry of the
  hostvars mapping carries the \<open>upd\<close> of a host with that \<open>fqdn\<close>, rendered in the
  layout \<open>YYYY-DD-MM HH:MM:SS\<close>: the day field stands before the month field.
\<close>

theorem upd_rendered_year_day_month:
  assumes "build_hostvars hosts = Inr hostvars"
    and "map_of hostvars k = Some d"
    and "\<forall>h \<in> set hosts. valid_datetime (upd h)"
  shows "\<exists>h \<in> set hosts. fqdn h = k \<and> hv_upd d = strftime_upd (upd h) \<and>
           year_day_month_format (upd h) (hv_upd d)"
proof -
  from build_hostvars_lookup [OF assms(1,2)] obtain h where
    h: "h \<in> set hosts" "fqdn h = k" "host_dict h = Inr d" by blast
  from h(3) have u: "hv_upd d = strftime_upd (upd h)"
    by (auto simp: host_dict_def split: sum.splits)
  from assms(3) h(1) have "valid_datetime (upd h)" by blast
  then have "year_day_month_format (upd h) (hv_upd d)"
    by (simp add: u strftime_upd_format)
  with h u show ?thesis by blast
qed

theorem upd_rendered_year_day_month_witness:
  "build_hostvars example_hosts = Inr example_hostvars \<and>
   map_of example_hostvars ''web1.example.com'' =
     Some (example_hostvar ''10.0.0.1'' [''web'', ''prod'']) \<and>
   list_all (\<lambda>h. valid_datetime (upd h)) example_hosts \<and>
   hv_upd (example_hostvar ''10.0.0.1'' [''web'', ''prod'']) = ''2020-14-03 01:59:26'' \<and>
   year_day_month_format example_upd ''2020-14-03 01:59:26''"
proof -
  have m: "map_of example_hostvars ''web1.example.com'' =
     Some (example_hostvar ''10.0.0.1'' [''web'', ''prod''])"
    by (simp add: example_hostvars_def)
  have v: "\<forall>h \<in> set example_hosts. valid_datetime (upd h)"
    by (simp add: example_hosts_def example_host_def example_upd_def valid_datetime_def)
  from upd_rendered_year_day_month [OF example_build m v] obtain h where
    "h \<in> set example_hosts" "year_day_month_format (upd h) (hv_upd (example_hostvar ''10.0.0.1'' [''web'', ''prod'']))"
    by blast
  then have "year_day_month_format example_upd ''2020-14-03 01:59:26''"
    by (auto simp: example_hosts_def example_host_def example_hostvar_def)
  with m v show ?thesis
    by (simp add: example_build list_all_iff example_hostvar_def)
qed

end
